theory Spec2Isabelle
  imports Main "HOL-Library.AList"
begin

section \<open>JavaScript values used by the server (index.js)\<close>

text \<open>
  A JavaScript number is a double. The numbers the server handles are integers (scores
  and counters start from integers and change by integers), \<open>NaN\<close> (the result of
  \<open>parseInt\<close> on text without a leading numeral) and the two infinities (the result
  of \<open>parseInt\<close> on a numeral beyond the range of doubles). \<open>Num n\<close> is the double
  whose value is the integer \<open>n\<close>. Negative zero is not told apart from zero: the
  server only adds, compares, tests for truthiness and prints, and there the two agree.
\<close>

datatype jsnum = Num int | NaN | PosInf | NegInf

text \<open>
  The double nearest to an integer (IEEE 754 round to nearest, ties to even): integers up
  to \<open>2^53\<close> in magnitude are doubles; beyond, a double has 53 significant bits, and
  magnitudes that round to \<open>2^1024\<close> or more become an infinity.
\<close>

function bitlen :: "int \<Rightarrow> nat" where
  "bitlen n = (if n \<le> 0 then 0 else Suc (bitlen (n div 2)))"
  by auto

termination bitlen
  by (relation "measure nat") auto

declare bitlen.simps [simp del]

text \<open>The rounding of a magnitude (a non-negative integer).\<close>

definition round_mag :: "int \<Rightarrow> int" where
  "round_mag m =
     (if m \<le> 2 ^ 53 then m
      else
        (let k = bitlen m - 53;
             q = m div 2 ^ k;
             r = m mod 2 ^ k;
             h = 2 ^ (k - 1);
             q' = (if r > h \<or> (r = h \<and> odd q) then q + 1 else q)
         in q' * 2 ^ k))"

definition to_double :: "int \<Rightarrow> jsnum" where
  "to_double n =
     (let v = round_mag \<bar>n\<bar> in
      if v \<ge> 2 ^ 1024 then (if n < 0 then NegInf else PosInf)
      else Num (if n < 0 then - v else v))"

text \<open>\<open>a + b\<close>: the exact sum, rounded to the nearest double.\<close>

fun js_add :: "jsnum \<Rightarrow> jsnum \<Rightarrow> jsnum" where
  "js_add (Num a) (Num b) = to_double (a + b)"
| "js_add NaN _ = NaN"
| "js_add _ NaN = NaN"
| "js_add PosInf NegInf = NaN"
| "js_add NegInf PosInf = NaN"
| "js_add PosInf _ = PosInf"
| "js_add _ PosInf = PosInf"
| "js_add NegInf _ = NegInf"
| "js_add _ NegInf = NegInf"

text \<open>\<open>a <= b\<close> and \<open>a >= b\<close>: false as soon as one side is \<open>NaN\<close>.\<close>

fun js_le :: "jsnum \<Rightarrow> jsnum \<Rightarrow> bool" where
  "js_le (Num a) (Num b) = (a \<le> b)"
| "js_le NaN _ = False"
| "js_le _ NaN = False"
| "js_le NegInf _ = True"
| "js_le _ PosInf = True"
| "js_le _ _ = False"

fun js_ge :: "jsnum \<Rightarrow> jsnum \<Rightarrow> bool" where
  "js_ge (Num a) (Num b) = (a \<ge> b)"
| "js_ge NaN _ = False"
| "js_ge _ NaN = False"
| "js_ge PosInf _ = True"
| "js_ge _ NegInf = True"
| "js_ge _ _ = False"

text \<open>Truthiness: \<open>0\<close>, \<open>NaN\<close>, the empty string, \<open>null\<close> and \<open>undefined\<close> are falsy.\<close>

fun truthy_num :: "jsnum \<Rightarrow> bool" where
  "truthy_num (Num n) = (n \<noteq> 0)"
| "truthy_num NaN = False"
| "truthy_num PosInf = True"
| "truthy_num NegInf = True"

definition truthy_str :: "string \<Rightarrow> bool" where
  "truthy_str s = (s \<noteq> [])"

fun truthy_opt :: "string option \<Rightarrow> bool" where
  "truthy_opt None = False"
| "truthy_opt (Some s) = truthy_str s"

text \<open>\<open>x || d\<close> on numbers and on possibly absent strings.\<close>

definition or_num :: "jsnum \<Rightarrow> jsnum \<Rightarrow> jsnum" where
  "or_num x d = (if truthy_num x then x else d)"

definition or_str :: "string option \<Rightarrow> string \<Rightarrow> string" where
  "or_str x d = (case x of None \<Rightarrow> d | Some s \<Rightarrow> if truthy_str s then s else d)"

subsection \<open>\<open>String(n)\<close> and \<open>parseInt(text)\<close>\<close>

definition digit_char :: "nat \<Rightarrow> char" where
  "digit_char d = ''0123456789'' ! d"

text \<open>The decimal digits of a non-negative integer.\<close>

function decimal :: "int \<Rightarrow> string" where
  "decimal n =
     (if n < 10 then [digit_char (nat n)]
      else decimal (n div 10) @ [digit_char (nat (n mod 10))])"
  by auto

termination decimal
  by (relation "measure nat") auto

declare decimal.simps [simp del]

text \<open>
  \<open>String(x)\<close> for an integer \<open>x\<close> beyond \<open>2^53\<close> (ECMAScript, Number::toString): the
  digits are those of the numeral \<open>s * 10^j\<close> with the fewest digits in \<open>s\<close> whose
  nearest double is \<open>x\<close> (the closest to \<open>x\<close> if there are two, the even one on a tie);
  they are followed by \<open>j\<close> zeros when the numeral has at most 21 digits, and written
  with an exponent otherwise. Up to \<open>2^53\<close> the text is the decimal numeral of \<open>x\<close>.
\<close>

definition shortest_at :: "int \<Rightarrow> nat \<Rightarrow> int option" where
  "shortest_at x j =
     (let lo = x div 10 ^ j;
          hi = lo + 1;
          ok_lo = (lo > 0 \<and> round_mag (lo * 10 ^ j) = x);
          ok_hi = (round_mag (hi * 10 ^ j) = x);
          dl = x - lo * 10 ^ j;
          dh = hi * 10 ^ j - x
      in if ok_lo \<and> ok_hi then Some (if dl < dh \<or> (dl = dh \<and> even lo) then lo else hi)
         else if ok_lo then Some lo
         else if ok_hi then Some hi
         else None)"

fun shortest :: "int \<Rightarrow> nat \<Rightarrow> int \<times> nat" where
  "shortest x 0 = (x, 0)"
| "shortest x (Suc j) = (case shortest_at x (Suc j) of Some s \<Rightarrow> (s, Suc j) | None \<Rightarrow> shortest x j)"

definition big_text :: "int \<Rightarrow> string" where
  "big_text x =
     (let (s, j) = shortest x (length (decimal x));
          ds = decimal s;
          n = length ds + j
      in if n \<le> 21 then ds @ replicate j (CHR ''0'')
         else (if length ds = 1 then ds else hd ds # CHR ''.'' # tl ds) @ ''e+'' @ decimal (int n - 1))"

definition mag_text :: "int \<Rightarrow> string" where
  "mag_text m = (if m \<le> 2 ^ 53 then decimal m else big_text m)"

fun js_String :: "jsnum \<Rightarrow> string" where
  "js_String (Num i) = (if i < 0 then CHR ''-'' # mag_text (- i) else mag_text i)"
| "js_String NaN = ''NaN''"
| "js_String PosInf = ''Infinity''"
| "js_String NegInf = ''-Infinity''"

text \<open>
  \<open>parseInt(text)\<close> with no radix argument (ECMAScript): leading white space is skipped,
  one sign is read, a \<open>0x\<close>/\<open>0X\<close> prefix selects radix 16, then the longest run of
  digits of the radix is read; with no digit the result is \<open>NaN\<close>, otherwise the double
  nearest to the signed value of the digits (beyond 20 significant digits ECMAScript
  lets an implementation read further digits as 0; here, as in V8, every digit counts).
  Characters are ASCII; white space is the ASCII white space.
\<close>

definition is_ws :: "char \<Rightarrow> bool" where
  "is_ws c = (c \<in> set [CHR '' '', CHR 0x09, CHR 0x0A, CHR 0x0B, CHR 0x0C, CHR 0x0D])"

definition digit_val :: "char \<Rightarrow> nat option" where
  "digit_val c =
     (let n = (of_char c :: nat) in
      if 48 \<le> n \<and> n \<le> 57 then Some (n - 48)
      else if 97 \<le> n \<and> n \<le> 122 then Some (n - 87)
      else if 65 \<le> n \<and> n \<le> 90 then Some (n - 55)
      else None)"

definition is_digit :: "nat \<Rightarrow> char \<Rightarrow> bool" where
  "is_digit r c = (case digit_val c of None \<Rightarrow> False | Some d \<Rightarrow> d < r)"

fun digits_value :: "nat \<Rightarrow> int \<Rightarrow> string \<Rightarrow> int" where
  "digits_value r acc [] = acc"
| "digits_value r acc (c # cs) = digits_value r (acc * int r + int (the (digit_val c))) cs"

fun strip_sign :: "string \<Rightarrow> bool \<times> string" where
  "strip_sign (c # cs) =
     (if c = CHR ''-'' then (True, cs) else if c = CHR ''+'' then (False, cs) else (False, c # cs))"
| "strip_sign [] = (False, [])"

fun strip_radix :: "string \<Rightarrow> nat \<times> string" where
  "strip_radix (a # b # cs) =
     (if a = CHR ''0'' \<and> (b = CHR ''x'' \<or> b = CHR ''X'') then (16, cs) else (10, a # b # cs))"
| "strip_radix cs = (10, cs)"

definition parseInt :: "string \<Rightarrow> jsnum" where
  "parseInt s =
     (let (neg, s2) = strip_sign (dropWhile is_ws s);
          (r, s3) = strip_radix s2;
          z = takeWhile (is_digit r) s3
      in if z = [] then NaN
         else to_double ((if neg then - 1 else 1) * digits_value r 0 z))"

text \<open>
  \<open>parseInt(redisData.f || d)\<close>: an absent or empty field gives the number \<open>d\<close>
  (whose text parses to itself), any other text is parsed.
\<close>

definition parse_field :: "string option \<Rightarrow> int \<Rightarrow> jsnum" where
  "parse_field f d = (if truthy_opt f then parseInt (the f) else parseInt (js_String (Num d)))"

section \<open>Game data (index.js, lines 35-54)\<close>

definition INITIAL_SCORE :: int where "INITIAL_SCORE = 100"
definition MAX_ROUNDS :: int where "MAX_ROUNDS = 100"
definition HISTORY_LIMIT :: nat where "HISTORY_LIMIT = 100"
definition MIN_SCORE :: int where "MIN_SCORE = 0"

text \<open>
  The payoff matrix. Its entries are numbers; the configuration gives small integers,
  and an entry is taken to be an integer that is a double.
\<close>

record rewards =
  cooperate :: int
  betray :: int
  bothCooperate :: int
  bothBetray :: int

definition initial_rewards :: rewards where
  "initial_rewards = \<lparr>cooperate = 3, betray = 5, bothCooperate = 2, bothBetray = 1\<rparr>"

record history_entry =
  e_round :: jsnum
  e_choice :: string
  e_score :: jsnum
  e_timestamp :: string
  e_rewards :: rewards

text \<open>A player object; \<open>currentChoice = null\<close> is \<open>None\<close>.\<close>

record player =
  p_id :: string
  p_name :: string
  p_score :: jsnum
  p_history :: "history_entry list"
  p_currentRound :: jsnum
  p_currentChoice :: "string option"
  p_totalGames :: jsnum

record scores =
  sc_player1 :: int
  sc_player2 :: int

text \<open>\<open>calculateScores\<close> (lines 676-688), reading the matrix it is given.\<close>

definition calculateScores :: "rewards \<Rightarrow> string \<Rightarrow> string \<Rightarrow> scores" where
  "calculateScores g choice1 choice2 =
     (if choice1 = ''cooperate'' \<and> choice2 = ''cooperate''
        then \<lparr>sc_player1 = bothCooperate g, sc_player2 = bothCooperate g\<rparr>
      else if choice1 = ''betray'' \<and> choice2 = ''betray''
        then \<lparr>sc_player1 = bothBetray g, sc_player2 = bothBetray g\<rparr>
      else if choice1 = ''cooperate'' \<and> choice2 = ''betray''
        then \<lparr>sc_player1 = - cooperate g, sc_player2 = betray g\<rparr>
      else \<lparr>sc_player1 = betray g, sc_player2 = - cooperate g\<rparr>)"

section \<open>Messages, the store and the engine state\<close>

text \<open>The \<open>error\<close> messages the handlers emit, one constructor per message text.\<close>

datatype err =
    NameTooLong | LoginFailed | NotLoggedIn | PlayerDataLost | AlreadyWaiting
  | AlreadyInGame | JoinFailed | InvalidChoice | PlayerNotFound | NoOpponent | ChoiceFailed

datatype end_reason = ScoreExhausted | MaxRoundsReached

text \<open>
  Events sent to clients. \<open>RoundComplete score totalScore opponentChoice opponentName\<close>,
  \<open>GameEnd finalScore history rounds message\<close>,
  \<open>MatchFound opponent opponentName opponentHistory\<close>.
\<close>

datatype msg =
    Error err
  | LoginSuccess player bool
  | GameJoined player rewards
  | MatchFound string string "history_entry list"
  | RoundComplete int jsnum "string option" string
  | GameEnd jsnum "history_entry list" jsnum end_reason
  | OpponentDisconnected

text \<open>
  The Redis hash stored under \<open>player:ID\<close>: every field is text and may be absent.
  The \<open>history\<close> field holds the JSON text of an array of history entries;
  \<open>JSON.stringify\<close> and \<open>JSON.parse\<close> are taken to be mutually inverse on such
  arrays, so the field is modelled by the array it encodes.
\<close>

record redis_hash =
  h_id :: "string option"
  h_name :: "string option"
  h_score :: "string option"
  h_history :: "history_entry list option"
  h_currentRound :: "string option"
  h_currentChoice :: "string option"
  h_totalGames :: "string option"
  h_lastSeen :: "string option"
  h_lastUpdated :: "string option"

definition empty_hash :: redis_hash where
  "empty_hash = \<lparr>h_id = None, h_name = None, h_score = None, h_history = None,
     h_currentRound = None, h_currentChoice = None, h_totalGames = None,
     h_lastSeen = None, h_lastUpdated = None\<rparr>"

text \<open>A Redis command either rejects (the awaiting handler throws) or replies.\<close>

datatype 'a reply = Rejected | Reply 'a

text \<open>
  An \<open>async\<close> handler runs until its next \<open>await\<close>, then yields to the event loop;
  other handlers run before it resumes. A suspended handler is a continuation: the
  place it waits at, its local variables and the reply it will receive (Redis runs the
  commands of its one connection in the order they are issued, so the reply is fixed
  when the command is issued, and a write takes effect in the store when it is issued).

  A player object is kept by value under its id. A local variable \<open>player\<close> that a
  handler holds across an \<open>await\<close> is only used afterwards as the payload of
  \<open>loginSuccess\<close> or \<open>gameJoined\<close>; the continuation carries the object as it was when
  the handler was suspended. In JavaScript the payload is the object as it is when the
  event is sent, which differs only when another handler has changed that same object
  in between.
\<close>

datatype cont =
    LoginExists string string string "bool reply"
  | LoginGetAll string string string "redis_hash reply"
  | LoginSet string player bool "unit reply"
  | JoinExists string string "bool reply"
  | JoinGetAll string string "redis_hash reply"
  | JoinWrite string string player
  | ChoiceWrite string string string

record state =
  players :: "string \<rightharpoonup> player"
  waitingPlayers :: "string list"
  matches :: "string \<rightharpoonup> string"
  socketToPlayerId :: "(string \<times> string) list"
  globalRewards :: rewards
  redis :: "string \<rightharpoonup> redis_hash"
  pending :: "cont list"
  out :: "(string \<times> msg) list"

text \<open>
  \<open>waitingPlayers\<close> is a JavaScript \<open>Set\<close> and \<open>socketToPlayerId\<close> a \<open>Map\<close>, both
  iterated by the code in insertion order: a list without repetition and an association
  list. \<open>players\<close> and \<open>matches\<close> are only looked up by key. \<open>redis\<close> is the store,
  keyed by player id; \<open>pending\<close> holds the suspended handlers; \<open>out\<close> is the log of
  emitted events with the socket each went to.
\<close>

definition initial_state :: "(string \<rightharpoonup> redis_hash) \<Rightarrow> state" where
  "initial_state r = \<lparr>players = Map.empty, waitingPlayers = [], matches = Map.empty,
     socketToPlayerId = [], globalRewards = initial_rewards, redis = r, pending = [], out = []\<rparr>"

text \<open>
  What the environment supplies to one turn of the event loop: the clock, the next
  \<open>uuidv4()\<close>, and whether Redis accepts the commands issued in this turn.
\<close>

record env =
  now :: string
  uuid :: string
  redis_ok :: bool

definition ANONYMOUS :: string where
  \<comment> \<open>stands for the four-character default name of the source\<close>
  "ANONYMOUS = ''anon''"

definition set_add :: "string \<Rightarrow> string list \<Rightarrow> string list" where
  "set_add x xs = (if x \<in> set xs then xs else xs @ [x])"

definition set_delete :: "string \<Rightarrow> string list \<Rightarrow> string list" where
  "set_delete x xs = removeAll x xs"

text \<open>The four mutations of the queue and the match table.\<close>

definition add_waiting :: "string \<Rightarrow> state \<Rightarrow> state" where
  "add_waiting i s = s\<lparr>waitingPlayers := set_add i (waitingPlayers s)\<rparr>"

definition remove_waiting :: "string \<Rightarrow> state \<Rightarrow> state" where
  "remove_waiting i s = s\<lparr>waitingPlayers := set_delete i (waitingPlayers s)\<rparr>"

definition set_match :: "string \<Rightarrow> string \<Rightarrow> state \<Rightarrow> state" where
  "set_match i j s = s\<lparr>matches := (matches s)(i \<mapsto> j)\<rparr>"

definition delete_match :: "string \<Rightarrow> state \<Rightarrow> state" where
  "delete_match i s = s\<lparr>matches := (matches s)(i := None)\<rparr>"

definition emit :: "string \<Rightarrow> msg \<Rightarrow> state \<Rightarrow> state" where
  "emit sock m s = s\<lparr>out := out s @ [(sock, m)]\<rparr>"

text \<open>\<open>if (socketId) io.to(socketId).emit(...)\<close>\<close>

definition emit_to :: "string option \<Rightarrow> msg \<Rightarrow> state \<Rightarrow> state" where
  "emit_to socketId m s = (if truthy_opt socketId then emit (the socketId) m s else s)"

definition suspend :: "cont \<Rightarrow> state \<Rightarrow> state" where
  "suspend k s = s\<lparr>pending := pending s @ [k]\<rparr>"

definition reply_of :: "env \<Rightarrow> 'a \<Rightarrow> 'a reply" where
  "reply_of e v = (if redis_ok e then Reply v else Rejected)"

text \<open>
  \<open>player.f = v\<close> on the object stored under an id. Every call site has checked that the
  object exists; on a missing object the state is left as it is.
\<close>

definition upd_player :: "string \<Rightarrow> (player \<Rightarrow> player) \<Rightarrow> state \<Rightarrow> state" where
  "upd_player i f s =
     (case players s i of None \<Rightarrow> s | Some p \<Rightarrow> s\<lparr>players := (players s)(i \<mapsto> f p)\<rparr>)"

text \<open>
  The object a local variable refers to, read where the code has already found it in
  the map.
\<close>

definition player_at :: "state \<Rightarrow> string \<Rightarrow> player" where
  "player_at s i = the (players s i)"

text \<open>\<open>findSocketByPlayerId\<close> (lines 426-431) and \<open>findOpponent\<close> (lines 434-436).\<close>

definition findSocketByPlayerId :: "state \<Rightarrow> string \<Rightarrow> string option" where
  "findSocketByPlayerId s playerId =
     map_option fst (find (\<lambda>(socketId, i). i = playerId) (socketToPlayerId s))"

definition findOpponent :: "state \<Rightarrow> string \<Rightarrow> string option" where
  "findOpponent s playerId = matches s playerId"

definition hGetAll :: "state \<Rightarrow> string \<Rightarrow> redis_hash" where
  "hGetAll s k = (case redis s k of None \<Rightarrow> empty_hash | Some h \<Rightarrow> h)"

text \<open>
  \<open>updatePlayerRedisData\<close> (lines 653-673). The fields are computed when the function
  is called; a rejected command is caught and logged inside the function, so the
  caller never sees it.
\<close>

definition player_hash :: "env \<Rightarrow> string \<Rightarrow> player \<Rightarrow> redis_hash \<Rightarrow> redis_hash" where
  "player_hash e playerId p h = h\<lparr>
     h_id := Some (or_str (Some (p_id p)) playerId),
     h_name := Some (or_str (Some (p_name p)) ANONYMOUS),
     h_score := Some (js_String (or_num (p_score p) (Num INITIAL_SCORE))),
     h_history := Some (p_history p),
     h_currentRound := Some (js_String (or_num (p_currentRound p) (Num 0))),
     h_currentChoice := Some (or_str (p_currentChoice p) []),
     h_totalGames := Some (js_String (or_num (p_totalGames p) (Num 0))),
     h_lastUpdated := Some (now e)\<rparr>"

definition updatePlayerRedisData :: "env \<Rightarrow> string \<Rightarrow> player option \<Rightarrow> state \<Rightarrow> state" where
  "updatePlayerRedisData e playerId player s =
     (case player of
        None \<Rightarrow> s
      | Some p \<Rightarrow>
          if \<not> truthy_str playerId then s
          else if redis_ok e
            then s\<lparr>redis := (redis s)(playerId \<mapsto> player_hash e playerId p (hGetAll s playerId))\<rparr>
          else s)"

text \<open>\<open>updatePlayerRedisData(playerId, player)\<close> with the object stored under \<open>playerId\<close>.\<close>

definition persist :: "env \<Rightarrow> string \<Rightarrow> state \<Rightarrow> state" where
  "persist e playerId s = updatePlayerRedisData e playerId (players s playerId) s"

text \<open>\<open>checkGameEnd\<close> (lines 691-729): the result and the state it leaves.\<close>

definition game_over :: "player \<Rightarrow> bool" where
  "game_over player =
     (js_le (p_score player) (Num MIN_SCORE) \<or> js_ge (p_currentRound player) (Num MAX_ROUNDS))"

definition end_msg :: "player \<Rightarrow> msg" where
  "end_msg player =
     GameEnd (p_score player) (p_history player) (p_currentRound player)
       (if js_le (p_score player) (Num MIN_SCORE) then ScoreExhausted else MaxRoundsReached)"

definition reset_player :: "player \<Rightarrow> player" where
  "reset_player p = p\<lparr>p_currentRound := Num 0, p_history := [], p_currentChoice := None\<rparr>"

definition checkGameEnd :: "env \<Rightarrow> string \<Rightarrow> state \<Rightarrow> bool \<times> state" where
  "checkGameEnd e playerId s =
     (case players s playerId of
        None \<Rightarrow> (True, s)
      | Some player \<Rightarrow>
          if game_over player
          then
            let s1 = emit_to (findSocketByPlayerId s playerId) (end_msg player) s;
                s2 = upd_player playerId reset_player s1;
                s3 = persist e playerId s2;
                s4 = remove_waiting playerId s3;
                s5 = delete_match playerId s4
            in (True, s5)
          else (False, s))"

section \<open>Matchmaking and settlement\<close>

text \<open>
  \<open>history.sort((a, b) => a.round - b.round)\<close> sorts the array in place and is stable.
  The order among entries whose round is \<open>NaN\<close> is left to the implementation by
  ECMAScript; here such an entry is ordered as round 0. An infinite round is ordered
  beyond every double.
\<close>

fun round_key :: "history_entry \<Rightarrow> int" where
  "round_key h =
     (case e_round h of Num i \<Rightarrow> i | NaN \<Rightarrow> 0 | PosInf \<Rightarrow> 2 ^ 1024 | NegInf \<Rightarrow> - (2 ^ 1024))"

definition sort_history :: "player \<Rightarrow> player" where
  "sort_history p = p\<lparr>p_history := sort_key round_key (p_history p)\<rparr>"

text \<open>\<open>slice(-100).reverse()\<close>\<close>

definition recent_first :: "history_entry list \<Rightarrow> history_entry list" where
  "recent_first hs = rev (drop (length hs - 100) hs)"

definition found_msg :: "state \<Rightarrow> string \<Rightarrow> msg" where
  "found_msg s opponent =
     MatchFound opponent (p_name (player_at s opponent))
       (recent_first (p_history (player_at s opponent)))"

definition clear_choice :: "player \<Rightarrow> player" where
  "clear_choice p = p\<lparr>p_currentChoice := None\<rparr>"

text \<open>Lines 509-518 of \<open>matchPlayers\<close>: a popped id without a player object is dropped.\<close>

definition drop_invalid :: "string \<Rightarrow> string \<Rightarrow> state \<Rightarrow> state" where
  "drop_invalid player1Id player2Id s =
     (let s1 = (if players s player1Id = None then remove_waiting player1Id s else s);
          s2 = (if players s player2Id = None then remove_waiting player2Id s1 else s1)
      in s2)"

text \<open>Lines 521-531: leave the queue, enter the match table, reset both choices.\<close>

definition match_pair :: "string \<Rightarrow> string \<Rightarrow> state \<Rightarrow> state" where
  "match_pair player1Id player2Id s =
     (let s1 = remove_waiting player1Id s;
          s2 = remove_waiting player2Id s1;
          s3 = set_match player1Id player2Id s2;
          s4 = set_match player2Id player1Id s3;
          s5 = upd_player player1Id clear_choice s4;
          s6 = upd_player player2Id clear_choice s5
      in s6)"

text \<open>Lines 538-551: both sockets are live; each history is sorted in place, then sent.\<close>

definition match_notify :: "string \<Rightarrow> string \<Rightarrow> string \<Rightarrow> string \<Rightarrow> state \<Rightarrow> state" where
  "match_notify socket1Id socket2Id player1Id player2Id s =
     (let s1 = upd_player player2Id sort_history s;
          s2 = emit socket1Id (found_msg s1 player2Id) s1;
          s3 = upd_player player1Id sort_history s2;
          s4 = emit socket2Id (found_msg s3 player1Id) s3
      in s4)"

text \<open>Lines 553-566: a side without a socket dissolves the match and re-queues the other.\<close>

definition match_undo :: "string option \<Rightarrow> string option \<Rightarrow> string \<Rightarrow> string \<Rightarrow> state \<Rightarrow> state" where
  "match_undo socket1Id socket2Id player1Id player2Id s =
     (let s1 = (if \<not> truthy_opt socket1Id
                then add_waiting player2Id (delete_match player2Id (delete_match player1Id s))
                else s);
          s2 = (if \<not> truthy_opt socket2Id
                then add_waiting player1Id (delete_match player2Id (delete_match player1Id s1))
                else s1)
      in s2)"

text \<open>
  \<open>matchPlayers\<close> (lines 498-572). The function calls itself after \<open>match_undo\<close>; with
  two queued players that both lack a socket it never returns (in JavaScript the
  stack overflows), which is the value \<open>None\<close> here.
\<close>

partial_function (option) matchPlayers :: "state \<Rightarrow> state option" where
  "matchPlayers s =
     (if length (waitingPlayers s) \<ge> 2 then
        (let player1Id = waitingPlayers s ! 0;
             player2Id = waitingPlayers s ! 1
         in if players s player1Id = None \<or> players s player2Id = None
            then Some (drop_invalid player1Id player2Id s)
            else
              (let s1 = match_pair player1Id player2Id s;
                   socket1Id = findSocketByPlayerId s1 player1Id;
                   socket2Id = findSocketByPlayerId s1 player2Id
               in if truthy_opt socket1Id \<and> truthy_opt socket2Id
                  then Some (match_notify (the socket1Id) (the socket2Id) player1Id player2Id s1)
                  else matchPlayers (match_undo socket1Id socket2Id player1Id player2Id s1)))
      else Some s)"

declare matchPlayers.simps [code]

text \<open>
  \<open>checkMatchCompletion\<close> (lines 575-650), in the order of the source: scores and
  rounds (lines 591-597), the two writes, issued and never awaited (lines 600-601),
  the two \<open>roundComplete\<close> events (lines 604-624), the reset of both choices (lines
  627-628), then the termination checks and the re-queue (lines 631-645).
\<close>

definition add_score :: "int \<Rightarrow> player \<Rightarrow> player" where
  "add_score d p = p\<lparr>p_score := js_add (p_score p) (Num d)\<rparr>"

definition next_round :: "player \<Rightarrow> player" where
  "next_round p = p\<lparr>p_currentRound := js_add (p_currentRound p) (Num 1)\<rparr>"

definition apply_scores :: "scores \<Rightarrow> string \<Rightarrow> string \<Rightarrow> state \<Rightarrow> state" where
  "apply_scores sc player1Id player2Id s =
     (let s1 = upd_player player1Id (add_score (sc_player1 sc)) s;
          s2 = upd_player player2Id (add_score (sc_player2 sc)) s1;
          s3 = upd_player player1Id next_round s2;
          s4 = upd_player player2Id next_round s3
      in s4)"

definition round_msg :: "int \<Rightarrow> state \<Rightarrow> string \<Rightarrow> string \<Rightarrow> msg" where
  "round_msg d s me opponent =
     RoundComplete d (p_score (player_at s me))
       (p_currentChoice (player_at s opponent)) (p_name (player_at s opponent))"

definition notify_round :: "scores \<Rightarrow> string \<Rightarrow> string \<Rightarrow> state \<Rightarrow> state" where
  "notify_round sc player1Id player2Id s =
     (let s1 = emit_to (findSocketByPlayerId s player1Id)
                 (round_msg (sc_player1 sc) s player1Id player2Id) s;
          s2 = emit_to (findSocketByPlayerId s player2Id)
                 (round_msg (sc_player2 sc) s player2Id player1Id) s1
      in s2)"

definition settle :: "env \<Rightarrow> string \<Rightarrow> string \<Rightarrow> state \<Rightarrow> state" where
  "settle e player1Id player2Id s =
     (let sc = calculateScores (globalRewards s)
                 (the (p_currentChoice (player_at s player1Id)))
                 (the (p_currentChoice (player_at s player2Id)));
          s1 = apply_scores sc player1Id player2Id s;
          s2 = persist e player1Id s1;
          s3 = persist e player2Id s2;
          s4 = notify_round sc player1Id player2Id s3;
          s5 = upd_player player1Id clear_choice s4;
          s6 = upd_player player2Id clear_choice s5
      in s6)"

definition requeue_live :: "bool \<Rightarrow> string \<Rightarrow> state \<Rightarrow> state" where
  "requeue_live ended playerId s =
     (if \<not> ended \<and> players s playerId \<noteq> None then add_waiting playerId s else s)"

definition requeue :: "env \<Rightarrow> string \<Rightarrow> string \<Rightarrow> state \<Rightarrow> state" where
  "requeue e player1Id player2Id s =
     (let (player1Ended, s1) = checkGameEnd e player1Id s;
          (player2Ended, s2) = checkGameEnd e player2Id s1;
          s3 = delete_match player1Id s2;
          s4 = delete_match player2Id s3;
          s5 = requeue_live player1Ended player1Id s4;
          s6 = requeue_live player2Ended player2Id s5
      in s6)"

definition checkMatchCompletion :: "env \<Rightarrow> string \<Rightarrow> string \<Rightarrow> state \<Rightarrow> state option" where
  "checkMatchCompletion e player1Id player2Id s =
     (case (players s player1Id, players s player2Id) of
        (Some player1, Some player2) \<Rightarrow>
          if truthy_opt (p_currentChoice player1) \<and> truthy_opt (p_currentChoice player2)
          then matchPlayers (requeue e player1Id player2Id (settle e player1Id player2Id s))
          else Some s
      | _ \<Rightarrow> Some s)"

section \<open>The socket handlers\<close>

text \<open>
  Each handler is given as the code it runs in one turn of the event loop: from the
  event to its first \<open>await\<close>, and, in \<open>resume\<close>, from one \<open>await\<close> to the next. The
  handlers \<open>getLeaderboard\<close>, \<open>getPlayerStats\<close> and \<open>ping\<close> change no state and are left
  out.
\<close>

subsection \<open>\<open>login\<close> (lines 125-202)\<close>

record login_data =
  d_playerId :: "string option"
  d_playerName :: "string option"

definition fresh_player :: "string \<Rightarrow> string \<Rightarrow> player" where
  "fresh_player playerId playerName =
     \<lparr>p_id = playerId, p_name = playerName, p_score = Num INITIAL_SCORE, p_history = [],
      p_currentRound = Num 0, p_currentChoice = None, p_totalGames = Num 0\<rparr>"

text \<open>Lines 145-153 and 225-233: the player object rebuilt from the stored hash.\<close>

definition rebuild_player :: "string \<Rightarrow> string \<Rightarrow> redis_hash \<Rightarrow> player" where
  "rebuild_player playerId playerName redisData =
     \<lparr>p_id = playerId, p_name = playerName,
      p_score = parse_field (h_score redisData) INITIAL_SCORE,
      p_history = (case h_history redisData of None \<Rightarrow> [] | Some hs \<Rightarrow> hs),
      p_currentRound = parse_field (h_currentRound redisData) 0,
      p_currentChoice = (if truthy_opt (h_currentChoice redisData) then h_currentChoice redisData else None),
      p_totalGames = parse_field (h_totalGames redisData) 0\<rparr>"

text \<open>
  The hash left by the \<open>hSet\<close> of lines 180-189. The call passes the key and then eight
  field names and values as sixteen separate arguments. The \<open>hSet\<close> of node-redis 4 (the
  client with \<open>createClient({url})\<close>, \<open>connect()\<close>, \<open>hSet\<close> and \<open>hGetAll\<close>) takes a key and
  either one field and its value or one object of fields; given a field name as its
  second argument it sends that field and the third argument, and ignores the rest.
  So this write stores the field \<open>id\<close> only; the other fields of the hash stay as they
  are. (The write in \<open>updatePlayerRedisData\<close> passes one object and stores every field.)
\<close>

definition login_hash :: "env \<Rightarrow> player \<Rightarrow> redis_hash \<Rightarrow> redis_hash" where
  "login_hash e playerData h = h\<lparr>h_id := Some (p_id playerData)\<rparr>"

definition login_write :: "env \<Rightarrow> string \<Rightarrow> player \<Rightarrow> state \<Rightarrow> state" where
  "login_write e playerId playerData s =
     (if redis_ok e
      then s\<lparr>redis := (redis s)(playerId \<mapsto> login_hash e playerData (hGetAll s playerId))\<rparr>
      else s)"

text \<open>Lines 173-189: bind the socket, store the object, issue the write and wait for it.\<close>

definition login_finish :: "env \<Rightarrow> string \<Rightarrow> string \<Rightarrow> player \<Rightarrow> bool \<Rightarrow> state \<Rightarrow> state" where
  "login_finish e sock playerId playerData isNewPlayer s =
     (let s1 = s\<lparr>socketToPlayerId := AList.update sock playerId (socketToPlayerId s)\<rparr>;
          s2 = s1\<lparr>players := (players s1)(playerId \<mapsto> playerData)\<rparr>;
          s3 = login_write e playerId playerData s2
      in suspend (LoginSet sock playerData isNewPlayer (reply_of e ())) s3)"

definition login_create :: "env \<Rightarrow> string \<Rightarrow> string \<Rightarrow> state \<Rightarrow> state" where
  "login_create e sock playerName s =
     login_finish e sock (uuid e) (fresh_player (uuid e) playerName) True s"

text \<open>The handler up to its first \<open>await\<close>. A missing \<open>data\<close> argument throws.\<close>

definition login :: "env \<Rightarrow> string \<Rightarrow> login_data option \<Rightarrow> state \<Rightarrow> state" where
  "login e sock data s =
     (case data of
        None \<Rightarrow> emit sock (Error LoginFailed) s
      | Some d \<Rightarrow>
          (let playerName = or_str (d_playerName d) ANONYMOUS in
           if length playerName > 20 then emit sock (Error NameTooLong) s
           else if truthy_opt (d_playerId d)
             then suspend (LoginExists sock (the (d_playerId d)) playerName
                     (reply_of e (redis s (the (d_playerId d)) \<noteq> None))) s
           else login_create e sock playerName s))"

subsection \<open>\<open>joinGame\<close> (lines 205-278)\<close>

text \<open>Lines 238-260: the two guards, the game counter, the write that is awaited.\<close>

definition count_game :: "player \<Rightarrow> player" where
  "count_game p = p\<lparr>p_totalGames := js_add (p_totalGames p) (Num 1)\<rparr>"

definition join_checks :: "env \<Rightarrow> string \<Rightarrow> string \<Rightarrow> state \<Rightarrow> state" where
  "join_checks e sock playerId s =
     (if playerId \<in> set (waitingPlayers s) then emit sock (Error AlreadyWaiting) s
      else if matches s playerId \<noteq> None then emit sock (Error AlreadyInGame) s
      else
        (let s1 = upd_player playerId count_game s;
             s2 = persist e playerId s1
         in suspend (JoinWrite sock playerId (player_at s2 playerId)) s2))"

definition joinGame :: "env \<Rightarrow> string \<Rightarrow> state \<Rightarrow> state" where
  "joinGame e sock s =
     (case map_of (socketToPlayerId s) sock of
        None \<Rightarrow> emit sock (Error NotLoggedIn) s
      | Some playerId \<Rightarrow>
          if \<not> truthy_str playerId then emit sock (Error NotLoggedIn) s
          else
            (case players s playerId of
               None \<Rightarrow> suspend (JoinExists sock playerId (reply_of e (redis s playerId \<noteq> None))) s
             | Some player \<Rightarrow> join_checks e sock playerId s))"

subsection \<open>\<open>makeChoice\<close> (lines 281-333)\<close>

definition push_history :: "history_entry \<Rightarrow> history_entry list \<Rightarrow> history_entry list" where
  "push_history x hs = (let hs1 = hs @ [x] in if length hs1 > HISTORY_LIMIT then tl hs1 else hs1)"

text \<open>Lines 310-320: the choice and the provisional history entry.\<close>

definition record_choice :: "string \<Rightarrow> string \<Rightarrow> rewards \<Rightarrow> player \<Rightarrow> player" where
  "record_choice choice time g p =
     p\<lparr>p_currentChoice := Some choice,
       p_history := push_history
         \<lparr>e_round = p_currentRound p, e_choice = choice, e_score = p_score p,
          e_timestamp = time, e_rewards = g\<rparr> (p_history p)\<rparr>"

definition makeChoice :: "env \<Rightarrow> string \<Rightarrow> string \<Rightarrow> state \<Rightarrow> state" where
  "makeChoice e sock choice s =
     (if choice \<noteq> ''cooperate'' \<and> choice \<noteq> ''betray'' then emit sock (Error InvalidChoice) s
      else
        (case map_of (socketToPlayerId s) sock of
           None \<Rightarrow> emit sock (Error NotLoggedIn) s
         | Some playerId \<Rightarrow>
             if \<not> truthy_str playerId then emit sock (Error NotLoggedIn) s
             else if players s playerId = None then emit sock (Error PlayerNotFound) s
             else if \<not> truthy_opt (findOpponent s playerId) then emit sock (Error NoOpponent) s
             else
               (let s1 = upd_player playerId (record_choice choice (now e) (globalRewards s)) s;
                    s2 = persist e playerId s1
                in suspend (ChoiceWrite sock playerId (the (findOpponent s playerId))) s2)))"

subsection \<open>\<open>disconnect\<close> (lines 336-387)\<close>

text \<open>Lines 343-366: a matched opponent with a player object is told and re-queued.\<close>

definition release_opponent :: "string \<Rightarrow> state \<Rightarrow> state option" where
  "release_opponent playerId s =
     (let opponentId = findOpponent s playerId in
      if truthy_opt opponentId \<and> players s (the opponentId) \<noteq> None
      then
        (let s1 = emit_to (findSocketByPlayerId s (the opponentId)) OpponentDisconnected s;
             s2 = delete_match playerId s1;
             s3 = delete_match (the opponentId) s2;
             s4 = add_waiting (the opponentId) s3
         in matchPlayers s4)
      else Some s)"

text \<open>Lines 368-383: the connection's data is cleaned up, the record saved and released.\<close>

definition cleanup :: "env \<Rightarrow> string \<Rightarrow> string \<Rightarrow> state \<Rightarrow> state" where
  "cleanup e sock playerId s =
     (let s1 = s\<lparr>socketToPlayerId := AList.delete sock (socketToPlayerId s)\<rparr>;
          s2 = remove_waiting playerId s1;
          s3 = delete_match playerId s2;
          s4 = persist e playerId s3
      in s4\<lparr>players := (players s4)(playerId := None)\<rparr>)"

definition disconnect :: "env \<Rightarrow> string \<Rightarrow> state \<Rightarrow> state option" where
  "disconnect e sock s =
     (case map_of (socketToPlayerId s) sock of
        None \<Rightarrow> Some s
      | Some playerId \<Rightarrow>
          if \<not> truthy_str playerId then Some s
          else map_option (cleanup e sock playerId) (release_opponent playerId s))"

subsection \<open>Resuming a suspended handler\<close>

definition resume :: "env \<Rightarrow> cont \<Rightarrow> state \<Rightarrow> state option" where
  "resume e k s =
     (case k of
        LoginExists sock playerId playerName r \<Rightarrow>
          (case r of
             Rejected \<Rightarrow> Some (emit sock (Error LoginFailed) s)
           | Reply True \<Rightarrow>
               Some (suspend (LoginGetAll sock playerId playerName (reply_of e (hGetAll s playerId))) s)
           | Reply False \<Rightarrow> Some (login_create e sock playerName s))
      | LoginGetAll sock playerId playerName r \<Rightarrow>
          (case r of
             Rejected \<Rightarrow> Some (emit sock (Error LoginFailed) s)
           | Reply redisData \<Rightarrow>
               Some (login_finish e sock playerId (rebuild_player playerId playerName redisData) False s))
      | LoginSet sock playerData isNewPlayer r \<Rightarrow>
          (case r of
             Rejected \<Rightarrow> Some (emit sock (Error LoginFailed) s)
           | Reply _ \<Rightarrow> Some (emit sock (LoginSuccess playerData isNewPlayer) s))
      | JoinExists sock playerId r \<Rightarrow>
          (case r of
             Rejected \<Rightarrow> Some (emit sock (Error JoinFailed) s)
           | Reply True \<Rightarrow>
               Some (suspend (JoinGetAll sock playerId (reply_of e (hGetAll s playerId))) s)
           | Reply False \<Rightarrow> Some (emit sock (Error PlayerDataLost) s))
      | JoinGetAll sock playerId r \<Rightarrow>
          (case r of
             Rejected \<Rightarrow> Some (emit sock (Error JoinFailed) s)
           | Reply redisData \<Rightarrow>
               Some (join_checks e sock playerId
                 (s\<lparr>players := (players s)(playerId \<mapsto>
                      rebuild_player playerId (or_str (h_name redisData) ANONYMOUS) redisData)\<rparr>)))
      | JoinWrite sock playerId player \<Rightarrow>
          matchPlayers (add_waiting playerId (emit sock (GameJoined player (globalRewards s)) s))
      | ChoiceWrite sock playerId opponentId \<Rightarrow> checkMatchCompletion e playerId opponentId s)"

section \<open>Runs of the engine\<close>

text \<open>
  One turn of the event loop: a client event starts a handler, \<open>Resume k\<close> resumes the
  \<open>k\<close>th suspended handler (in any order: handlers await through different numbers of
  promises), \<open>SetRewards\<close> is the matrix being changed from outside the handlers, which
  never change it themselves. \<open>None\<close>: no such suspended handler, or \<open>matchPlayers\<close> does
  not return.
\<close>

datatype event =
    Login string "login_data option"
  | JoinGame string
  | MakeChoice string string
  | Disconnect string
  | Resume nat
  | SetRewards rewards

definition step :: "env \<Rightarrow> event \<Rightarrow> state \<Rightarrow> state option" where
  "step e ev s =
     (case ev of
        Login sock data \<Rightarrow> Some (login e sock data s)
      | JoinGame sock \<Rightarrow> Some (joinGame e sock s)
      | MakeChoice sock choice \<Rightarrow> Some (makeChoice e sock choice s)
      | Disconnect sock \<Rightarrow> disconnect e sock s
      | Resume k \<Rightarrow>
          if k < length (pending s)
          then resume e (pending s ! k) (s\<lparr>pending := take k (pending s) @ drop (Suc k) (pending s)\<rparr>)
          else None
      | SetRewards g \<Rightarrow> Some (s\<lparr>globalRewards := g\<rparr>))"

fun run :: "(env \<times> event) list \<Rightarrow> state \<Rightarrow> state option" where
  "run [] s = Some s"
| "run ((e, ev) # evs) s = (case step e ev s of None \<Rightarrow> None | Some s1 \<Rightarrow> run evs s1)"

section \<open>Notions used in the statements\<close>

text \<open>The score stored for a player id, if the player is in memory.\<close>

definition score_of :: "state \<Rightarrow> string \<Rightarrow> jsnum option" where
  "score_of s i = map_option p_score (players s i)"

text \<open>What one settled round does to a player object, given the player's delta.\<close>

definition settled :: "int \<Rightarrow> player \<Rightarrow> player" where
  "settled d p = p\<lparr>p_score := js_add (p_score p) (Num d),
                   p_currentRound := js_add (p_currentRound p) (Num 1),
                   p_currentChoice := None\<rparr>"

text \<open>No id is both in the waiting queue and a key of the match table.\<close>

definition excl :: "state \<Rightarrow> bool" where
  "excl s = (\<forall>i. i \<in> set (waitingPlayers s) \<longrightarrow> matches s i = None)"

text \<open>
  The history bound as an invariant: it holds of every player object in memory, of
  every stored record, and of every record that a suspended handler has read from the
  store and will turn into a player object.
\<close>

definition player_ok :: "player \<Rightarrow> bool" where
  "player_ok p = (length (p_history p) \<le> HISTORY_LIMIT)"

definition hash_ok :: "redis_hash \<Rightarrow> bool" where
  "hash_ok h = (case h_history h of None \<Rightarrow> True | Some hs \<Rightarrow> length hs \<le> HISTORY_LIMIT)"

definition reply_ok :: "redis_hash reply \<Rightarrow> bool" where
  "reply_ok r = (case r of Rejected \<Rightarrow> True | Reply h \<Rightarrow> hash_ok h)"

definition cont_ok :: "cont \<Rightarrow> bool" where
  "cont_ok k = (case k of LoginGetAll _ _ _ r \<Rightarrow> reply_ok r | JoinGetAll _ _ r \<Rightarrow> reply_ok r | _ \<Rightarrow> True)"

definition hist_ok :: "state \<Rightarrow> bool" where
  "hist_ok s =
     ((\<forall>i p. players s i = Some p \<longrightarrow> player_ok p) \<and>
      (\<forall>i h. redis s i = Some h \<longrightarrow> hash_ok h) \<and>
      (\<forall>k \<in> set (pending s). cont_ok k))"

text \<open>
  No id is queued twice, no id is matched with itself, and no suspended \<open>makeChoice\<close>
  handler holds a player as its own opponent.
\<close>

definition choice_ok :: "cont \<Rightarrow> bool" where
  "choice_ok k = (case k of ChoiceWrite _ i opp \<Rightarrow> opp \<noteq> i | _ \<Rightarrow> True)"

definition no_self :: "state \<Rightarrow> bool" where
  "no_self s =
     (distinct (waitingPlayers s) \<and> (\<forall>i. matches s i \<noteq> Some i) \<and>
      (\<forall>k \<in> set (pending s). choice_ok k))"

text \<open>Every queued id that has a player object has a socket bound to it.\<close>

definition queue_live :: "state \<Rightarrow> bool" where
  "queue_live s =
     (\<forall>i \<in> set (waitingPlayers s). players s i \<noteq> None \<longrightarrow> truthy_opt (findSocketByPlayerId s i))"

text \<open>The score text stored under an id.\<close>

definition stored_score :: "state \<Rightarrow> string \<Rightarrow> string option" where
  "stored_score s i = (case redis s i of None \<Rightarrow> None | Some h \<Rightarrow> h_score h)"



section \<open>Example states and runs\<close>

text \<open>
  Two connected players \<open>A\<close> (socket \<open>s1\<close>) and \<open>B\<close> (socket \<open>s2\<close>), matched with each
  other, with the given pending choices.
\<close>

definition demo_env :: env where
  "demo_env = \<lparr>now = ''t'', uuid = ''U'', redis_ok = True\<rparr>"

definition demo_player :: "string \<Rightarrow> string \<Rightarrow> string option \<Rightarrow> player" where
  "demo_player i n c = (fresh_player i n)\<lparr>p_currentChoice := c, p_totalGames := Num 1\<rparr>"

definition demo_paired :: "string option \<Rightarrow> string option \<Rightarrow> state" where
  "demo_paired ca cb =
     \<lparr>players = [''A'' \<mapsto> demo_player ''A'' ''Alice'' ca, ''B'' \<mapsto> demo_player ''B'' ''Bob'' cb],
      waitingPlayers = [], matches = [''A'' \<mapsto> ''B'', ''B'' \<mapsto> ''A''],
      socketToPlayerId = [(''s1'', ''A''), (''s2'', ''B'')],
      globalRewards = initial_rewards, redis = Map.empty, pending = [], out = []\<rparr>"


text \<open>A record as the engine leaves it in the store, with the given score and game count.\<close>

definition stored_alice :: "string \<Rightarrow> string \<Rightarrow> redis_hash" where
  "stored_alice sc tg =
     \<lparr>h_id = Some ''A'', h_name = Some ''Alice'', h_score = Some sc, h_history = Some [],
      h_currentRound = Some ''0'', h_currentChoice = Some [], h_totalGames = Some tg,
      h_lastSeen = Some ''t'', h_lastUpdated = Some ''t''\<rparr>"



text \<open>
  Runs are lists of turns, each with what the environment supplies in it. \<open>env_of u ok\<close>:
  the next uuid is \<open>u\<close> and Redis accepts commands iff \<open>ok\<close>.
\<close>

definition env_of :: "string \<Rightarrow> bool \<Rightarrow> env" where
  "env_of u ok = \<lparr>now = ''t'', uuid = u, redis_ok = ok\<rparr>"

definition new_login :: "string \<Rightarrow> string \<Rightarrow> event" where
  "new_login sock n = Login sock (Some \<lparr>d_playerId = None, d_playerName = Some n\<rparr>)"

text \<open>Alice (socket \<open>s1\<close>, id \<open>A\<close>) and Bob (socket \<open>s2\<close>, id \<open>B\<close>) log in, join and are matched.\<close>

definition two_matched :: "(env \<times> event) list" where
  "two_matched =
     [(env_of ''A'' True, new_login ''s1'' ''Alice''), (env_of [] True, Resume 0),
      (env_of ''B'' True, new_login ''s2'' ''Bob''), (env_of [] True, Resume 0),
      (env_of [] True, JoinGame ''s1''), (env_of [] True, Resume 0),
      (env_of [] True, JoinGame ''s2''), (env_of [] True, Resume 0)]"

text \<open>
  Bob is queued; Alice's socket sends \<open>joinGame\<close> twice, and both handlers reach their
  \<open>await\<close> before either resumes.
\<close>

definition join_race :: "(env \<times> event) list" where
  "join_race =
     [(env_of ''A'' True, new_login ''s1'' ''Alice''), (env_of [] True, Resume 0),
      (env_of ''B'' True, new_login ''s2'' ''Bob''), (env_of [] True, Resume 0),
      (env_of [] True, JoinGame ''s2''), (env_of [] True, Resume 0),
      (env_of [] True, JoinGame ''s1''), (env_of [] True, JoinGame ''s1''),
      (env_of [] True, Resume 0), (env_of [] True, Resume 0)]"

text \<open>
  Alice and Bob are matched. Zoe logs in, sends \<open>joinGame\<close> and disconnects before the
  handler resumes; the handler then queues her id, which has no player object any more.
  Alice and Bob both cooperate and the round settles.
\<close>

definition dead_in_queue :: "(env \<times> event) list" where
  "dead_in_queue = two_matched @
     [(env_of ''Z'' True, new_login ''s3'' ''Zoe''), (env_of [] True, Resume 0),
      (env_of [] True, JoinGame ''s3''), (env_of [] True, Disconnect ''s3''),
      (env_of [] True, Resume 0),
      (env_of [] True, MakeChoice ''s1'' ''cooperate''), (env_of [] True, Resume 0),
      (env_of [] True, MakeChoice ''s2'' ''cooperate''), (env_of [] True, Resume 0)]"




text \<open>
  The queue [Z, B, A] with a player \<open>Z\<close> that has an object and no socket: Zoe queues,
  then her socket logs in again as another player; Alice and Bob settle a round.
\<close>

definition socketless_in_queue :: "(env \<times> event) list" where
  "socketless_in_queue = two_matched @
     [(env_of ''Z'' True, new_login ''s3'' ''Zoe''), (env_of [] True, Resume 0),
      (env_of [] True, JoinGame ''s3''), (env_of [] True, Resume 0),
      (env_of ''Y'' True, new_login ''s3'' ''Yan''), (env_of [] True, Resume 0),
      (env_of [] True, MakeChoice ''s1'' ''cooperate''), (env_of [] True, Resume 0),
      (env_of [] True, MakeChoice ''s2'' ''cooperate''), (env_of [] True, Resume 0)]"

text \<open>
  Alice comes back with the given stored score, is matched with Bob (a new player) and
  betrays while Bob cooperates.
\<close>

definition known_login :: "string \<Rightarrow> string \<Rightarrow> string \<Rightarrow> event" where
  "known_login sock i n = Login sock (Some \<lparr>d_playerId = Some i, d_playerName = Some n\<rparr>)"

definition returning_alice :: "(env \<times> event) list" where
  "returning_alice =
     [(env_of [] True, known_login ''s1'' ''A'' ''Alice''),
      (env_of [] True, Resume 0), (env_of [] True, Resume 0), (env_of [] True, Resume 0)]"

definition alice_betrays :: "(env \<times> event) list" where
  "alice_betrays = returning_alice @
     [(env_of ''B'' True, new_login ''s2'' ''Bob''), (env_of [] True, Resume 0),
      (env_of [] True, JoinGame ''s1''), (env_of [] True, Resume 0),
      (env_of [] True, JoinGame ''s2''), (env_of [] True, Resume 0),
      (env_of [] True, MakeChoice ''s1'' ''betray''), (env_of [] True, Resume 0),
      (env_of [] True, MakeChoice ''s2'' ''cooperate''), (env_of [] True, Resume 0)]"

section \<open>Frame lemmas\<close>

text \<open>
  Each primitive mutation changes one component of the state and leaves the others as
  they are.
\<close>

lemma add_waiting_frame [simp]:
  "players (add_waiting i s) = players s" "matches (add_waiting i s) = matches s"
  "socketToPlayerId (add_waiting i s) = socketToPlayerId s"
  "globalRewards (add_waiting i s) = globalRewards s" "redis (add_waiting i s) = redis s"
  "pending (add_waiting i s) = pending s" "out (add_waiting i s) = out s"
  "waitingPlayers (add_waiting i s) = set_add i (waitingPlayers s)"
  by (simp_all add: add_waiting_def)

lemma remove_waiting_frame [simp]:
  "players (remove_waiting i s) = players s" "matches (remove_waiting i s) = matches s"
  "socketToPlayerId (remove_waiting i s) = socketToPlayerId s"
  "globalRewards (remove_waiting i s) = globalRewards s" "redis (remove_waiting i s) = redis s"
  "pending (remove_waiting i s) = pending s" "out (remove_waiting i s) = out s"
  "waitingPlayers (remove_waiting i s) = set_delete i (waitingPlayers s)"
  by (simp_all add: remove_waiting_def)

lemma set_match_frame [simp]:
  "players (set_match i j s) = players s" "waitingPlayers (set_match i j s) = waitingPlayers s"
  "socketToPlayerId (set_match i j s) = socketToPlayerId s"
  "globalRewards (set_match i j s) = globalRewards s" "redis (set_match i j s) = redis s"
  "pending (set_match i j s) = pending s" "out (set_match i j s) = out s"
  "matches (set_match i j s) = (matches s)(i \<mapsto> j)"
  by (simp_all add: set_match_def)

lemma delete_match_frame [simp]:
  "players (delete_match i s) = players s" "waitingPlayers (delete_match i s) = waitingPlayers s"
  "socketToPlayerId (delete_match i s) = socketToPlayerId s"
  "globalRewards (delete_match i s) = globalRewards s" "redis (delete_match i s) = redis s"
  "pending (delete_match i s) = pending s" "out (delete_match i s) = out s"
  "matches (delete_match i s) = (matches s)(i := None)"
  by (simp_all add: delete_match_def)

lemma emit_frame [simp]:
  "players (emit a m s) = players s" "waitingPlayers (emit a m s) = waitingPlayers s"
  "matches (emit a m s) = matches s" "socketToPlayerId (emit a m s) = socketToPlayerId s"
  "globalRewards (emit a m s) = globalRewards s" "redis (emit a m s) = redis s"
  "pending (emit a m s) = pending s" "out (emit a m s) = out s @ [(a, m)]"
  by (simp_all add: emit_def)

lemma emit_to_frame [simp]:
  "players (emit_to b m s) = players s" "waitingPlayers (emit_to b m s) = waitingPlayers s"
  "matches (emit_to b m s) = matches s" "socketToPlayerId (emit_to b m s) = socketToPlayerId s"
  "globalRewards (emit_to b m s) = globalRewards s" "redis (emit_to b m s) = redis s"
  "pending (emit_to b m s) = pending s"
  by (simp_all add: emit_to_def)

lemma emit_to_out:
  "out (emit_to b m s) = out s @ (if truthy_opt b then [(the b, m)] else [])"
  by (simp add: emit_to_def)

lemma suspend_frame [simp]:
  "players (suspend k s) = players s" "waitingPlayers (suspend k s) = waitingPlayers s"
  "matches (suspend k s) = matches s" "socketToPlayerId (suspend k s) = socketToPlayerId s"
  "globalRewards (suspend k s) = globalRewards s" "redis (suspend k s) = redis s"
  "pending (suspend k s) = pending s @ [k]" "out (suspend k s) = out s"
  by (simp_all add: suspend_def)

lemma updatePlayerRedisData_frame [simp]:
  "players (updatePlayerRedisData e i p s) = players s"
  "waitingPlayers (updatePlayerRedisData e i p s) = waitingPlayers s"
  "matches (updatePlayerRedisData e i p s) = matches s"
  "socketToPlayerId (updatePlayerRedisData e i p s) = socketToPlayerId s"
  "globalRewards (updatePlayerRedisData e i p s) = globalRewards s"
  "pending (updatePlayerRedisData e i p s) = pending s"
  "out (updatePlayerRedisData e i p s) = out s"
  by (simp_all add: updatePlayerRedisData_def split: option.splits)

lemma persist_frame [simp]:
  "players (persist e i s) = players s" "waitingPlayers (persist e i s) = waitingPlayers s"
  "matches (persist e i s) = matches s" "socketToPlayerId (persist e i s) = socketToPlayerId s"
  "globalRewards (persist e i s) = globalRewards s" "pending (persist e i s) = pending s"
  "out (persist e i s) = out s"
  by (simp_all add: persist_def)

lemma login_write_frame [simp]:
  "players (login_write e i p s) = players s" "waitingPlayers (login_write e i p s) = waitingPlayers s"
  "matches (login_write e i p s) = matches s" "socketToPlayerId (login_write e i p s) = socketToPlayerId s"
  "globalRewards (login_write e i p s) = globalRewards s" "pending (login_write e i p s) = pending s"
  "out (login_write e i p s) = out s"
  by (simp_all add: login_write_def)

lemma upd_player_frame [simp]:
  "waitingPlayers (upd_player i f s) = waitingPlayers s"
  "matches (upd_player i f s) = matches s"
  "socketToPlayerId (upd_player i f s) = socketToPlayerId s"
  "globalRewards (upd_player i f s) = globalRewards s"
  "redis (upd_player i f s) = redis s"
  "pending (upd_player i f s) = pending s"
  "out (upd_player i f s) = out s"
  by (simp_all add: upd_player_def split: option.splits)

lemma upd_player_players:
  "players (upd_player i f s) j = (if j = i then map_option f (players s i) else players s j)"
  by (simp add: upd_player_def split: option.splits)

lemma findSocket_frame [simp]:
  "findSocketByPlayerId (emit a m s) i = findSocketByPlayerId s i"
  "findSocketByPlayerId (emit_to b m s) i = findSocketByPlayerId s i"
  "findSocketByPlayerId (upd_player j f s) i = findSocketByPlayerId s i"
  "findSocketByPlayerId (persist e j s) i = findSocketByPlayerId s i"
  "findSocketByPlayerId (add_waiting j s) i = findSocketByPlayerId s i"
  "findSocketByPlayerId (remove_waiting j s) i = findSocketByPlayerId s i"
  "findSocketByPlayerId (set_match j k s) i = findSocketByPlayerId s i"
  "findSocketByPlayerId (delete_match j s) i = findSocketByPlayerId s i"
  by (simp_all add: findSocketByPlayerId_def)

lemma player_at_frame [simp]:
  "player_at (emit a m s) = player_at s" "player_at (emit_to b m s) = player_at s"
  "player_at (persist e i s) = player_at s" "player_at (add_waiting i s) = player_at s"
  "player_at (remove_waiting i s) = player_at s" "player_at (set_match i j s) = player_at s"
  "player_at (delete_match i s) = player_at s" "player_at (suspend k s) = player_at s"
  by (simp_all add: player_at_def fun_eq_iff)

lemma round_msg_persist [simp]: "round_msg d (persist e i s) = round_msg d s"
  by (simp add: round_msg_def fun_eq_iff)

lemma apply_scores_frame [simp]:
  "waitingPlayers (apply_scores sc a b s) = waitingPlayers s"
  "matches (apply_scores sc a b s) = matches s"
  "socketToPlayerId (apply_scores sc a b s) = socketToPlayerId s"
  "globalRewards (apply_scores sc a b s) = globalRewards s"
  "redis (apply_scores sc a b s) = redis s"
  "pending (apply_scores sc a b s) = pending s"
  "out (apply_scores sc a b s) = out s"
  "findSocketByPlayerId (apply_scores sc a b s) i = findSocketByPlayerId s i"
  by (simp_all add: apply_scores_def Let_def)

lemma apply_scores_players:
  assumes "players s a = Some pa" "players s b = Some pb" "a \<noteq> b"
  shows "players (apply_scores sc a b s) =
          (players s)(a \<mapsto> next_round (add_score (sc_player1 sc) pa),
                      b \<mapsto> next_round (add_score (sc_player2 sc) pb))"
  using assms by (simp add: apply_scores_def Let_def upd_player_players fun_eq_iff)

lemma settle_players:
  assumes "players s a = Some pa" "players s b = Some pb" "a \<noteq> b"
  shows "players (settle e a b s) =
          (players s)(a \<mapsto> settled (sc_player1 (calculateScores (globalRewards s) (the (p_currentChoice pa)) (the (p_currentChoice pb)))) pa,
                      b \<mapsto> settled (sc_player2 (calculateScores (globalRewards s) (the (p_currentChoice pa)) (the (p_currentChoice pb)))) pb)"
  using assms
  by (simp add: settle_def Let_def notify_round_def apply_scores_players upd_player_players settled_def
       fun_eq_iff player_at_def clear_choice_def next_round_def add_score_def)

section \<open>Matchmaking preserves what its four stages preserve\<close>

text \<open>
  \<open>matchPlayers\<close> is a partial function; whatever holds before a pass and is kept by
  each of its four stages holds in the state the pass returns.
\<close>

lemma matchPlayers_preserves:
  assumes run: "matchPlayers s = Some s'" and P: "P s"
    and d: "\<And>a b t. P t \<Longrightarrow> P (drop_invalid a b t)"
    and p: "\<And>t. P t \<Longrightarrow> 2 \<le> length (waitingPlayers t) \<Longrightarrow>
              P (match_pair (waitingPlayers t ! 0) (waitingPlayers t ! 1) t)"
    and n: "\<And>x y a b t. P t \<Longrightarrow> P (match_notify x y a b t)"
    and u: "\<And>x y a b t. P t \<Longrightarrow> P (match_undo x y a b t)"
  shows "P s'"
proof -
  have "P s \<longrightarrow> P s'"
  proof (rule matchPlayers.raw_induct[rotated 1, where P = "\<lambda>s s'. P s \<longrightarrow> P s'", OF run])
    fix mp :: "state \<Rightarrow> state option" and s s' :: state
    assume IH: "\<And>x y. mp x = Some y \<Longrightarrow> P x \<longrightarrow> P y"
    let ?a = "waitingPlayers s ! 0" and ?b = "waitingPlayers s ! 1"
    let ?t = "match_pair ?a ?b s"
    let ?x = "findSocketByPlayerId ?t ?a" and ?y = "findSocketByPlayerId ?t ?b"
    assume eq: "(if 2 \<le> length (waitingPlayers s)
      then let player1Id = waitingPlayers s ! 0;
               player2Id = waitingPlayers s ! 1
           in if players s player1Id = None \<or> players s player2Id = None
              then Some (drop_invalid player1Id player2Id s)
              else let s1 = match_pair player1Id player2Id s;
                       socket1Id = findSocketByPlayerId s1 player1Id;
                       socket2Id = findSocketByPlayerId s1 player2Id
                   in if truthy_opt socket1Id \<and> truthy_opt socket2Id
                      then Some (match_notify (the socket1Id) (the socket2Id) player1Id player2Id s1)
                      else mp (match_undo socket1Id socket2Id player1Id player2Id s1)
      else Some s) = Some s'"
    show "P s \<longrightarrow> P s'"
    proof
      assume Ps: "P s"
      show "P s'"
      proof (cases "2 \<le> length (waitingPlayers s)")
        case False
        with eq Ps show ?thesis by simp
      next
        case long: True
        show ?thesis
        proof (cases "players s ?a = None \<or> players s ?b = None")
          case True
          with eq long have "s' = drop_invalid ?a ?b s" by (auto simp add: Let_def)
          with d[OF Ps] show ?thesis by simp
        next
          case live: False
          show ?thesis
          proof (cases "truthy_opt ?x \<and> truthy_opt ?y")
            case True
            with eq long live have "s' = match_notify (the ?x) (the ?y) ?a ?b ?t"
              by (auto simp add: Let_def)
            with n[OF p[OF Ps long]] show ?thesis by simp
          next
            case False
            with eq long live have "mp (match_undo ?x ?y ?a ?b ?t) = Some s'"
              by (auto simp add: Let_def)
            from IH[OF this] u[OF p[OF Ps long]] show ?thesis by blast
          qed
        qed
      qed
    qed
  qed
  with P show ?thesis by blast
qed

section \<open>Runs\<close>

lemma run_append: "run (xs @ ys) s = (case run xs s of None \<Rightarrow> None | Some t \<Rightarrow> run ys t)"
  by (induction xs arbitrary: s) (auto split: option.splits)

lemma step_resume_last:
  assumes "pending s1 = ps @ [k]"
  shows "step e (Resume (length ps)) s1 = resume e k (s1\<lparr>pending := ps\<rparr>)"
  using assms by (simp add: step_def nth_append)

lemma suspend_then_resume:
  "n = length (pending t) \<Longrightarrow> step e (Resume n) (suspend k t) = resume e k t"
  by (simp add: step_resume_last[where ps = "pending t" and k = k] suspend_def)

section \<open>Doubles\<close>

text \<open>Integers up to \<open>2^53\<close> in magnitude are doubles, and sums within that range are exact.\<close>

lemma round_mag_safe: "m \<le> 2 ^ 53 \<Longrightarrow> round_mag m = m"
  by (simp add: round_mag_def)

lemma to_double_safe: "\<bar>n\<bar> \<le> 2 ^ 53 \<Longrightarrow> to_double n = Num n"
proof -
  assume a: "\<bar>n\<bar> \<le> 2 ^ 53"
  have "(2::int) ^ 53 < 2 ^ 1024" by simp
  with a have "\<not> (2::int) ^ 1024 \<le> \<bar>n\<bar>" by linarith
  with a show ?thesis by (simp add: to_double_def round_mag_safe Let_def)
qed

lemma js_add_safe: "\<bar>a + b\<bar> \<le> 2 ^ 53 \<Longrightarrow> js_add (Num a) (Num b) = Num (a + b)"
  by (simp add: to_double_safe)

section \<open>Payoffs and settlement\<close>

lemma calculateScores_table:
  "calculateScores g ''cooperate'' ''cooperate'' = \<lparr>sc_player1 = bothCooperate g, sc_player2 = bothCooperate g\<rparr>"
  "calculateScores g ''betray'' ''betray'' = \<lparr>sc_player1 = bothBetray g, sc_player2 = bothBetray g\<rparr>"
  "calculateScores g ''cooperate'' ''betray'' = \<lparr>sc_player1 = - cooperate g, sc_player2 = betray g\<rparr>"
  "calculateScores g ''betray'' ''cooperate'' = \<lparr>sc_player1 = betray g, sc_player2 = - cooperate g\<rparr>"
  by (simp_all add: calculateScores_def)

lemma score_of_frame [simp]:
  "score_of (emit a m s) = score_of s" "score_of (emit_to b m s) = score_of s"
  "score_of (persist e i s) = score_of s" "score_of (add_waiting i s) = score_of s"
  "score_of (remove_waiting i s) = score_of s" "score_of (set_match i j s) = score_of s"
  "score_of (delete_match i s) = score_of s" "score_of (suspend k s) = score_of s"
  by (simp_all add: score_of_def fun_eq_iff)

lemma score_of_upd:
  "(\<And>p. p_score (f p) = p_score p) \<Longrightarrow> score_of (upd_player i f s) = score_of s"
  by (auto simp add: score_of_def fun_eq_iff upd_player_players map_option.compositionality comp_def)

lemma score_of_upd_simps [simp]:
  "score_of (upd_player i clear_choice s) = score_of s"
  "score_of (upd_player i sort_history s) = score_of s"
  "score_of (upd_player i reset_player s) = score_of s"
  "score_of (upd_player i next_round s) = score_of s"
  by (simp_all add: score_of_upd clear_choice_def sort_history_def reset_player_def next_round_def)

lemma checkGameEnd_score [simp]: "score_of (snd (checkGameEnd e i s)) = score_of s"
  by (simp add: checkGameEnd_def Let_def split: option.splits)

lemma requeue_score [simp]: "score_of (requeue e a b s) = score_of s"
  by (simp add: requeue_def requeue_live_def Let_def split_beta)

lemma match_stage_score [simp]:
  "score_of (drop_invalid a b s) = score_of s"
  "score_of (match_pair a b s) = score_of s"
  "score_of (match_notify x y a b s) = score_of s"
  "score_of (match_undo u v a b s) = score_of s"
  by (simp_all add: drop_invalid_def match_pair_def match_notify_def match_undo_def Let_def)

lemma matchPlayers_score: "matchPlayers s = Some s' \<Longrightarrow> score_of s' = score_of s"
  by (rule matchPlayers_preserves[where P = "\<lambda>t. score_of t = score_of s"]) simp_all

lemma settle_score:
  assumes "players s a = Some pa" "players s b = Some pb" "a \<noteq> b"
  shows "score_of (settle e a b s) a =
           Some (js_add (p_score pa) (Num (sc_player1 (calculateScores (globalRewards s)
              (the (p_currentChoice pa)) (the (p_currentChoice pb))))))"
    and "score_of (settle e a b s) b =
           Some (js_add (p_score pb) (Num (sc_player2 (calculateScores (globalRewards s)
              (the (p_currentChoice pa)) (the (p_currentChoice pb))))))"
  using assms by (simp_all add: score_of_def settle_players settled_def)

lemma settle_out:
  assumes "players s a = Some pa" "players s b = Some pb" "a \<noteq> b"
  shows "out (settle e a b s) = out s @
     (let sc = calculateScores (globalRewards s) (the (p_currentChoice pa)) (the (p_currentChoice pb)) in
      (if truthy_opt (findSocketByPlayerId s a)
       then [(the (findSocketByPlayerId s a),
              RoundComplete (sc_player1 sc) (js_add (p_score pa) (Num (sc_player1 sc)))
                (p_currentChoice pb) (p_name pb))] else []) @
      (if truthy_opt (findSocketByPlayerId s b)
       then [(the (findSocketByPlayerId s b),
              RoundComplete (sc_player2 sc) (js_add (p_score pb) (Num (sc_player2 sc)))
                (p_currentChoice pa) (p_name pa))] else []))"
  using assms
  by (simp add: settle_def Let_def notify_round_def emit_to_out round_msg_def player_at_def
        apply_scores_players next_round_def add_score_def)

text \<open>
  Settlement as \<open>checkMatchCompletion\<close> runs it: the stages after \<open>settle\<close> keep the
  sockets and the player objects, only add to the event log, and matchmaking returns
  at once on a queue whose players all have sockets.
\<close>

lemma upd_player_none [simp]: "(players (upd_player i f s) j = None) = (players s j = None)"
  by (simp add: upd_player_players)

lemma settle_frame [simp]:
  "waitingPlayers (settle e a b s) = waitingPlayers s"
  "socketToPlayerId (settle e a b s) = socketToPlayerId s"
  "(players (settle e a b s) j = None) = (players s j = None)"
  by (simp_all add: settle_def notify_round_def apply_scores_def Let_def)

lemma checkGameEnd_frame [simp]:
  "socketToPlayerId (snd (checkGameEnd e i s)) = socketToPlayerId s"
  "(players (snd (checkGameEnd e i s)) j = None) = (players s j = None)"
  "set (waitingPlayers (snd (checkGameEnd e i s))) \<subseteq> set (waitingPlayers s)"
  by (auto simp add: checkGameEnd_def Let_def set_delete_def split: option.splits)

lemma requeue_frame [simp]:
  "socketToPlayerId (requeue e a b s) = socketToPlayerId s"
  "(players (requeue e a b s) j = None) = (players s j = None)"
  by (simp_all add: requeue_def requeue_live_def Let_def split_beta)

lemma requeue_waiting: "set (waitingPlayers (requeue e a b s)) \<subseteq> set (waitingPlayers s) \<union> {a, b}"
proof -
  let ?s1 = "snd (checkGameEnd e a s)"
  let ?s2 = "snd (checkGameEnd e b ?s1)"
  have "set (waitingPlayers ?s2) \<subseteq> set (waitingPlayers s)"
    using checkGameEnd_frame(3)[of e b ?s1] checkGameEnd_frame(3)[of e a s] by blast
  then show ?thesis
    by (auto simp add: requeue_def requeue_live_def Let_def split_beta set_add_def split: if_splits)
qed

lemma findSocket_cong_sock:
  "socketToPlayerId t = socketToPlayerId s \<Longrightarrow> findSocketByPlayerId t i = findSocketByPlayerId s i"
  by (simp add: findSocketByPlayerId_def)

lemma match_pair_frame [simp]:
  "socketToPlayerId (match_pair a b s) = socketToPlayerId s"
  "out (match_pair a b s) = out s" "redis (match_pair a b s) = redis s"
  by (simp_all add: match_pair_def Let_def)

lemma findSocket_match_pair [simp]:
  "findSocketByPlayerId (match_pair a b s) i = findSocketByPlayerId s i"
  by (simp add: findSocketByPlayerId_def)

lemma queue_live_settled:
  assumes "queue_live s" "truthy_opt (findSocketByPlayerId s a)" "truthy_opt (findSocketByPlayerId s b)"
  shows "queue_live (requeue e a b (settle e a b s))"
proof -
  let ?t = "requeue e a b (settle e a b s)"
  have sock: "findSocketByPlayerId ?t i = findSocketByPlayerId s i" for i
    by (rule findSocket_cong_sock) simp
  have w: "set (waitingPlayers ?t) \<subseteq> set (waitingPlayers s) \<union> {a, b}"
    using requeue_waiting[of e a b "settle e a b s"] by simp
  show ?thesis
    unfolding queue_live_def
  proof (intro ballI impI)
    fix i assume i: "i \<in> set (waitingPlayers ?t)" and p: "players ?t i \<noteq> None"
    from p have p': "players s i \<noteq> None" by simp
    from i w have "i \<in> set (waitingPlayers s) \<or> i = a \<or> i = b" by blast
    then show "truthy_opt (findSocketByPlayerId ?t i)"
      using assms p' by (auto simp add: sock queue_live_def)
  qed
qed

lemma matchPlayers_live: "queue_live s \<Longrightarrow> \<exists>s'. matchPlayers s = Some s'"
proof -
  assume live: "queue_live s"
  show ?thesis
  proof (cases "2 \<le> length (waitingPlayers s)")
    case False
    then show ?thesis by (subst matchPlayers.simps) simp
  next
    case True
    let ?a = "waitingPlayers s ! 0" and ?b = "waitingPlayers s ! 1"
    from True have "0 < length (waitingPlayers s)" "1 < length (waitingPlayers s)" by linarith+
    then have mem: "?a \<in> set (waitingPlayers s)" "?b \<in> set (waitingPlayers s)"
      using nth_mem[of 0 "waitingPlayers s"] nth_mem[of 1 "waitingPlayers s"] by blast+
    show ?thesis
    proof (cases "players s ?a = None \<or> players s ?b = None")
      case True
      with \<open>2 \<le> length (waitingPlayers s)\<close> show ?thesis
        by (subst matchPlayers.simps) (auto simp add: Let_def)
    next
      case False
      with live mem have "truthy_opt (findSocketByPlayerId s ?a)" "truthy_opt (findSocketByPlayerId s ?b)"
        by (auto simp add: queue_live_def)
      then have "truthy_opt (findSocketByPlayerId (match_pair ?a ?b s) ?a)"
        "truthy_opt (findSocketByPlayerId (match_pair ?a ?b s) ?b)"
        by simp_all
      with False \<open>2 \<le> length (waitingPlayers s)\<close> show ?thesis
        by (subst matchPlayers.simps) (auto simp add: Let_def)
    qed
  qed
qed

lemma checkGameEnd_out: "\<exists>r. out (snd (checkGameEnd e i s)) = out s @ r"
  by (simp add: checkGameEnd_def Let_def emit_to_out split: option.splits)

lemma requeue_out: "\<exists>r. out (requeue e a b s) = out s @ r"
proof -
  obtain r1 where 1: "out (snd (checkGameEnd e a s)) = out s @ r1" using checkGameEnd_out by blast
  obtain r2 where 2: "out (snd (checkGameEnd e b (snd (checkGameEnd e a s)))) = out (snd (checkGameEnd e a s)) @ r2"
    using checkGameEnd_out by blast
  show ?thesis using 1 2 by (simp add: requeue_def requeue_live_def Let_def split_beta)
qed

lemma matchPlayers_out: "matchPlayers s = Some s' \<Longrightarrow> \<exists>r. out s' = out s @ r"
  by (rule matchPlayers_preserves[where P = "\<lambda>t. \<exists>r. out t = out s @ r"])
     (auto simp add: drop_invalid_def match_notify_def match_undo_def Let_def)

lemma checkMatchCompletion_settles:
  assumes "players s a = Some pa" "players s b = Some pb"
    and "truthy_opt (p_currentChoice pa)" "truthy_opt (p_currentChoice pb)"
  shows "checkMatchCompletion e a b s = matchPlayers (requeue e a b (settle e a b s))"
  using assms by (simp add: checkMatchCompletion_def)

lemma checkMatchCompletion_returns:
  assumes "players s a = Some pa" "players s b = Some pb"
    and "queue_live s" "truthy_opt (findSocketByPlayerId s a)" "truthy_opt (findSocketByPlayerId s b)"
  shows "\<exists>s'. checkMatchCompletion e a b s = Some s'"
proof (cases "truthy_opt (p_currentChoice pa) \<and> truthy_opt (p_currentChoice pb)")
  case True
  then show ?thesis
    using matchPlayers_live[OF queue_live_settled[OF assms(3-5), of e]] assms(1,2)
    by (simp add: checkMatchCompletion_def)
next
  case False
  then show ?thesis using assms(1,2) by (auto simp add: checkMatchCompletion_def)
qed

lemma checkMatchCompletion_out:
  assumes "players s a = Some pa" "players s b = Some pb"
    and "truthy_opt (p_currentChoice pa)" "truthy_opt (p_currentChoice pb)"
    and "checkMatchCompletion e a b s = Some s'"
  shows "\<exists>rest. out s' = out (settle e a b s) @ rest"
proof -
  have m: "matchPlayers (requeue e a b (settle e a b s)) = Some s'"
    using assms by (simp add: checkMatchCompletion_def)
  obtain r1 where 1: "out (requeue e a b (settle e a b s)) = out (settle e a b s) @ r1"
    using requeue_out by blast
  obtain r2 where 2: "out s' = out (requeue e a b (settle e a b s)) @ r2"
    using matchPlayers_out[OF m] by blast
  show ?thesis using 1 2 by simp
qed

text \<open>
  Claim C1, as stated, fails beyond the range in which doubles are exact: a score is a
  JavaScript number, and \<open>score += delta\<close> gives the double nearest to the sum. In the
  run \<open>alice_betrays\<close> Alice comes back with a stored score of \<open>9007199254740992\<close>
  (that is \<open>2^53\<close>) and betrays a cooperating Bob: her delta is 5 and her new total, in
  memory and in the \<open>roundComplete\<close> event, is \<open>9007199254740996\<close>, not
  \<open>9007199254740997\<close>.
\<close>

theorem sum_beyond_exact_range:
  "map_option (\<lambda>s. (hd (out s), score_of s ''A'',
                    (''s1'', RoundComplete 5 (Num 9007199254740996) (Some ''cooperate'') ''Bob'') \<in> set (out s)))
     (run alice_betrays (initial_state [''A'' \<mapsto> stored_alice ''9007199254740992'' ''1'']))
   = Some ((''s1'', LoginSuccess
              \<lparr>p_id = ''A'', p_name = ''Alice'', p_score = Num 9007199254740992, p_history = [],
               p_currentRound = Num 0, p_currentChoice = None, p_totalGames = Num 1\<rparr> False),
           Some (Num 9007199254740996), True)"
  by code_simp

text \<open>
  Claim C1, amended. Two distinct players have the pending choices \<open>ca\<close> and \<open>cb\<close>, each
  \<open>cooperate\<close> or \<open>betray\<close>. The deltas are: both cooperate, \<open>bothCooperate\<close> each; both
  betray, \<open>bothBetray\<close> each; cooperate against betray, \<open>-cooperate\<close> for the cooperator
  and \<open>betray\<close> for the defector, and symmetrically. Each side's new total is the double
  nearest to its prior score plus its delta, which is the sum itself whenever the sum
  is at most \<open>2^53\<close> in magnitude. In every state that \<open>checkMatchCompletion\<close> returns,
  each side has that total, and the events sent by the call begin with \<open>roundComplete\<close>
  to each side that has a socket, carrying the side's delta, its new total and the
  opponent's choice and name. And \<open>checkMatchCompletion\<close> does return when both sides,
  and every queued id with a player object, have a socket.
\<close>

theorem payoff_settlement:
  assumes "players s a = Some pa" and "players s b = Some pb" and "a \<noteq> b"
    and "p_currentChoice pa = Some ca" and "p_currentChoice pb = Some cb"
    and "ca \<in> {''cooperate'', ''betray''}" and "cb \<in> {''cooperate'', ''betray''}"
  shows "let g = globalRewards s; sc = calculateScores g ca cb;
             ta = js_add (p_score pa) (Num (sc_player1 sc));
             tb = js_add (p_score pb) (Num (sc_player2 sc));
             sent =
               (if truthy_opt (findSocketByPlayerId s a)
                then [(the (findSocketByPlayerId s a),
                       RoundComplete (sc_player1 sc) ta (Some cb) (p_name pb))] else []) @
               (if truthy_opt (findSocketByPlayerId s b)
                then [(the (findSocketByPlayerId s b),
                       RoundComplete (sc_player2 sc) tb (Some ca) (p_name pa))] else [])
     in
     (ca = ''cooperate'' \<and> cb = ''cooperate'' \<longrightarrow>
        sc_player1 sc = bothCooperate g \<and> sc_player2 sc = bothCooperate g) \<and>
     (ca = ''betray'' \<and> cb = ''betray'' \<longrightarrow>
        sc_player1 sc = bothBetray g \<and> sc_player2 sc = bothBetray g) \<and>
     (ca = ''cooperate'' \<and> cb = ''betray'' \<longrightarrow>
        sc_player1 sc = - cooperate g \<and> sc_player2 sc = betray g) \<and>
     (ca = ''betray'' \<and> cb = ''cooperate'' \<longrightarrow>
        sc_player1 sc = betray g \<and> sc_player2 sc = - cooperate g) \<and>
     (\<forall>x. p_score pa = Num x \<longrightarrow>
        ta = to_double (x + sc_player1 sc) \<and>
        (\<bar>x + sc_player1 sc\<bar> \<le> 2 ^ 53 \<longrightarrow> ta = Num (x + sc_player1 sc))) \<and>
     (\<forall>y. p_score pb = Num y \<longrightarrow>
        tb = to_double (y + sc_player2 sc) \<and>
        (\<bar>y + sc_player2 sc\<bar> \<le> 2 ^ 53 \<longrightarrow> tb = Num (y + sc_player2 sc))) \<and>
     (\<forall>s'. checkMatchCompletion e a b s = Some s' \<longrightarrow>
        score_of s' a = Some ta \<and> score_of s' b = Some tb \<and>
        (\<exists>rest. out s' = out s @ sent @ rest)) \<and>
     (queue_live s \<and> truthy_opt (findSocketByPlayerId s a) \<and> truthy_opt (findSocketByPlayerId s b) \<longrightarrow>
        (\<exists>s'. checkMatchCompletion e a b s = Some s'))"
proof -
  have table: "calculateScores g ''cooperate'' ''cooperate'' = \<lparr>sc_player1 = bothCooperate g, sc_player2 = bothCooperate g\<rparr>"
    "calculateScores g ''betray'' ''betray'' = \<lparr>sc_player1 = bothBetray g, sc_player2 = bothBetray g\<rparr>"
    "calculateScores g ''cooperate'' ''betray'' = \<lparr>sc_player1 = - cooperate g, sc_player2 = betray g\<rparr>"
    "calculateScores g ''betray'' ''cooperate'' = \<lparr>sc_player1 = betray g, sc_player2 = - cooperate g\<rparr>" for g
    by (simp_all add: calculateScores_def)
  have tr: "truthy_opt (p_currentChoice pa)" "truthy_opt (p_currentChoice pb)"
    using assms by (auto simp add: truthy_str_def)
  have later: "score_of s' = score_of (settle e a b s) \<and> (\<exists>rest. out s' = out (settle e a b s) @ rest)"
    if "checkMatchCompletion e a b s = Some s'" for s'
  proof -
    from that have "matchPlayers (requeue e a b (settle e a b s)) = Some s'"
      using checkMatchCompletion_settles[OF assms(1,2) tr] by simp
    from matchPlayers_score[OF this] checkMatchCompletion_out[OF assms(1,2) tr that]
    show ?thesis by simp
  qed
  have ret: "\<exists>s'. checkMatchCompletion e a b s = Some s'"
    if "queue_live s \<and> truthy_opt (findSocketByPlayerId s a) \<and> truthy_opt (findSocketByPlayerId s b)"
    using that checkMatchCompletion_returns[OF assms(1,2)] by blast
  show ?thesis
    unfolding Let_def
  proof (intro conjI allI impI)
    fix s' assume r: "checkMatchCompletion e a b s = Some s'"
    show "score_of s' a = Some (js_add (p_score pa) (Num (sc_player1 (calculateScores (globalRewards s) ca cb))))"
      using later[OF r] settle_score(1)[OF assms(1-3), of e] assms(4,5) by simp
    show "score_of s' b = Some (js_add (p_score pb) (Num (sc_player2 (calculateScores (globalRewards s) ca cb))))"
      using later[OF r] settle_score(2)[OF assms(1-3), of e] assms(4,5) by simp
    show "\<exists>rest. out s' = out s @
       ((if truthy_opt (findSocketByPlayerId s a)
         then [(the (findSocketByPlayerId s a),
                RoundComplete (sc_player1 (calculateScores (globalRewards s) ca cb))
                  (js_add (p_score pa) (Num (sc_player1 (calculateScores (globalRewards s) ca cb))))
                  (Some cb) (p_name pb))] else []) @
        (if truthy_opt (findSocketByPlayerId s b)
         then [(the (findSocketByPlayerId s b),
                RoundComplete (sc_player2 (calculateScores (globalRewards s) ca cb))
                  (js_add (p_score pb) (Num (sc_player2 (calculateScores (globalRewards s) ca cb))))
                  (Some ca) (p_name pa))] else [])) @ rest"
    proof -
      from later[OF r] obtain rest where o: "out s' = out (settle e a b s) @ rest" by blast
      show ?thesis
        by (rule exI[of _ rest], simp only: o settle_out[OF assms(1-3), of e], simp add: assms(4,5) Let_def)
    qed
  qed (use assms(4-7) ret in \<open>auto simp add: table to_double_safe\<close>)
qed

text \<open>
  An instance: Alice cooperates, Bob betrays, both at score 100 under the initial matrix.
\<close>

theorem payoff_settlement_witness:
  "\<exists>s'. checkMatchCompletion demo_env ''A'' ''B'' (demo_paired (Some ''cooperate'') (Some ''betray'')) = Some s' \<and>
      score_of s' ''A'' = Some (Num 97) \<and> score_of s' ''B'' = Some (Num 105) \<and>
      (\<exists>rest. out s' = [(''s1'', RoundComplete (- 3) (Num 97) (Some ''betray'') ''Bob''),
                        (''s2'', RoundComplete 5 (Num 105) (Some ''cooperate'') ''Alice'')] @ rest)"
  using payoff_settlement[of "demo_paired (Some ''cooperate'') (Some ''betray'')" "''A''"
      "demo_player ''A'' ''Alice'' (Some ''cooperate'')" "''B''"
      "demo_player ''B'' ''Bob'' (Some ''betray'')" "''cooperate''" "''betray''" demo_env]
  by (simp add: demo_paired_def demo_player_def fresh_player_def Let_def calculateScores_def
        initial_rewards_def INITIAL_SCORE_def findSocketByPlayerId_def truthy_str_def queue_live_def
        to_double_safe) blast

section \<open>Termination\<close>






section \<open>Queue and match table\<close>

text \<open>
  The property of claim C3, that no id is both queued and matched, is kept by every
  turn of the event loop except the resumption of a \<open>joinGame\<close> handler whose player was
  matched while the handler awaited its write.
\<close>

lemma excl_cong: "waitingPlayers t = waitingPlayers s \<Longrightarrow> matches t = matches s \<Longrightarrow> excl t = excl s"
  by (simp add: excl_def)

lemma excl_frame [simp]:
  "excl (emit a m s) = excl s" "excl (emit_to b m s) = excl s" "excl (suspend k s) = excl s"
  "excl (persist e i s) = excl s" "excl (upd_player i f s) = excl s"
  "excl (login_write e i p s) = excl s"
  by (rule excl_cong; simp)+

lemma excl_players [simp]: "excl (s\<lparr>players := x\<rparr>) = excl s"
  by (simp add: excl_def)

lemma excl_ops:
  "excl s \<Longrightarrow> excl (remove_waiting i s)"
  "excl s \<Longrightarrow> excl (delete_match i s)"
  "excl s \<Longrightarrow> matches s i = None \<Longrightarrow> excl (add_waiting i s)"
  "excl s \<Longrightarrow> i \<notin> set (waitingPlayers s) \<Longrightarrow> excl (set_match i j s)"
  by (auto simp add: excl_def set_add_def set_delete_def)

lemma excl_requeue_one: "excl s \<Longrightarrow> excl (add_waiting i (delete_match i s))"
  by (auto simp add: excl_def set_add_def)

lemma excl_checkGameEnd: "excl s \<Longrightarrow> excl (snd (checkGameEnd e i s))"
  by (simp add: checkGameEnd_def Let_def excl_ops split: option.splits)

lemma checkGameEnd_matches:
  "matches s j = None \<Longrightarrow> matches (snd (checkGameEnd e i s)) j = None"
  by (simp add: checkGameEnd_def Let_def split: option.splits)

lemma excl_settle [simp]: "excl (settle e a b s) = excl s"
  by (rule excl_cong) (simp_all add: settle_def notify_round_def Let_def)

lemma excl_requeue: "excl s \<Longrightarrow> excl (requeue e a b s)"
proof -
  assume "excl s"
  let ?s2 = "snd (checkGameEnd e b (snd (checkGameEnd e a s)))"
  let ?s4 = "delete_match b (delete_match a ?s2)"
  have 4: "excl ?s4" "matches ?s4 a = None" "matches ?s4 b = None"
    using \<open>excl s\<close> by (simp_all add: excl_ops excl_checkGameEnd)
  have 5: "excl (requeue_live x a ?s4)" "matches (requeue_live x a ?s4) b = None" for x
    using 4 by (simp_all add: requeue_live_def excl_ops)
  have "excl (requeue_live y b (requeue_live x a ?s4))" for x y
    using 5[of x] by (simp add: requeue_live_def excl_ops)
  then show ?thesis by (simp add: requeue_def Let_def split_beta)
qed

lemma excl_match_stages:
  "excl s \<Longrightarrow> excl (drop_invalid a b s)"
  "excl s \<Longrightarrow> excl (match_pair a b s)"
  "excl s \<Longrightarrow> excl (match_notify x y a b s)"
  "excl s \<Longrightarrow> excl (match_undo u v a b s)"
  by (auto simp add: drop_invalid_def match_pair_def match_notify_def match_undo_def Let_def
        excl_def set_add_def set_delete_def)

lemma excl_matchPlayers: "matchPlayers s = Some s' \<Longrightarrow> excl s \<Longrightarrow> excl s'"
  by (rule matchPlayers_preserves[where P = excl]) (simp_all add: excl_match_stages)

lemma excl_checkMatchCompletion: "checkMatchCompletion e a b s = Some s' \<Longrightarrow> excl s \<Longrightarrow> excl s'"
  by (auto simp add: checkMatchCompletion_def excl_requeue dest!: excl_matchPlayers
        split: option.splits if_splits)

lemma excl_login [simp]: "excl (login e sock d s) = excl s"
  by (rule excl_cong) (simp_all add: login_def login_create_def login_finish_def Let_def split: option.splits)

lemma excl_login_finish [simp]: "excl (login_finish e sock i p n s) = excl s"
  by (rule excl_cong) (simp_all add: login_finish_def Let_def)

lemma excl_join_checks [simp]: "excl (join_checks e sock i s) = excl s"
  by (rule excl_cong) (simp_all add: join_checks_def Let_def)

lemma excl_joinGame [simp]: "excl (joinGame e sock s) = excl s"
  by (simp add: joinGame_def split: option.splits)

lemma excl_makeChoice [simp]: "excl (makeChoice e sock c s) = excl s"
  by (rule excl_cong) (simp_all add: makeChoice_def Let_def split: option.splits)

lemma excl_release: "release_opponent i s = Some s' \<Longrightarrow> excl s \<Longrightarrow> excl s'"
proof -
  assume a: "release_opponent i s = Some s'" "excl s"
  show ?thesis
  proof (cases "truthy_opt (findOpponent s i) \<and> players s (the (findOpponent s i)) \<noteq> None")
    case False
    with a show ?thesis by (auto simp add: release_opponent_def Let_def)
  next
    case True
    let ?o = "the (findOpponent s i)"
    let ?t = "add_waiting ?o (delete_match ?o (delete_match i (emit_to (findSocketByPlayerId s ?o) OpponentDisconnected s)))"
    from True a have m: "matchPlayers ?t = Some s'" by (auto simp add: release_opponent_def Let_def)
    have "excl ?t" using a(2) by (intro excl_requeue_one excl_ops(2)) simp
    with excl_matchPlayers[OF m] show ?thesis by blast
  qed
qed

lemma excl_cleanup: "excl s \<Longrightarrow> excl (cleanup e sock i s)"
  by (auto simp add: cleanup_def Let_def excl_def set_delete_def)

lemma disconnect_cases:
  assumes "disconnect e sock s = Some s'"
  obtains "s' = s"
    | i t where "release_opponent i s = Some t" and "s' = cleanup e sock i t"
  using assms by (auto simp add: disconnect_def split: option.splits if_splits)

lemma excl_disconnect:
  assumes "disconnect e sock s = Some s'" and "excl s"
  shows "excl s'"
  using assms(1)
proof (cases rule: disconnect_cases)
  case 1
  with assms(2) show ?thesis by simp
next
  case (2 i t)
  from excl_release[OF 2(1) assms(2)] have "excl t" .
  then show ?thesis unfolding 2(2) by (rule excl_cleanup)
qed

lemma excl_resume:
  assumes "resume e k s = Some s'" and "excl s"
    and "\<And>sock i p. k = JoinWrite sock i p \<Longrightarrow> matches s i = None"
  shows "excl s'"
proof (cases k)
  case (JoinWrite sock i p)
  with assms(1) have m: "matchPlayers (add_waiting i (emit sock (GameJoined p (globalRewards s)) s)) = Some s'"
    by (simp add: resume_def)
  have "excl (add_waiting i (emit sock (GameJoined p (globalRewards s)) s))"
    using assms(2) assms(3)[OF JoinWrite] by (intro excl_ops(3)) simp_all
  with excl_matchPlayers[OF m] show ?thesis by blast
next
  case (ChoiceWrite sock i opp)
  with assms show ?thesis by (auto simp add: resume_def dest: excl_checkMatchCompletion)
qed (use assms in \<open>auto simp add: resume_def login_create_def split: reply.splits bool.splits\<close>)

lemma excl_step:
  assumes "step e ev s = Some s'" and "excl s"
    and "\<And>k sock i p. ev = Resume k \<Longrightarrow> k < length (pending s) \<Longrightarrow>
           pending s ! k = JoinWrite sock i p \<Longrightarrow> matches s i = None"
  shows "excl s'"
proof (cases ev)
  case (Resume k)
  with assms(1) have k: "k < length (pending s)" by (simp add: step_def split: if_splits)
  let ?t = "s\<lparr>pending := take k (pending s) @ drop (Suc k) (pending s)\<rparr>"
  from assms(1) Resume k have r: "resume e (pending s ! k) ?t = Some s'" by (simp add: step_def)
  have "excl ?t" using assms(2) by (simp add: excl_def)
  moreover have "matches ?t i = None" if "pending s ! k = JoinWrite sock i p" for sock i p
    using assms(3)[OF Resume k that] by simp
  ultimately show ?thesis using excl_resume[OF r] by blast
next
  case (SetRewards g)
  with assms show ?thesis by (auto simp add: step_def excl_def)
qed (use assms in \<open>auto simp add: step_def dest: excl_disconnect\<close>)

text \<open>
  Claim C3 fails on the code. Bob waits in the queue; Alice's socket sends \<open>joinGame\<close>
  twice before the first handler's write is acknowledged, so both handlers pass the
  guards of lines 239-248. The first to resume queues Alice and matches her with Bob;
  the second queues her again: \<open>A\<close> is then in the waiting queue and a key of the match
  table.
\<close>

theorem join_race_breaks_exclusion:
  "map_option (\<lambda>s. (''A'' \<in> set (waitingPlayers s), matches s ''A''))
     (run join_race (initial_state Map.empty)) = Some (True, Some ''B'')"
  by code_simp

text \<open>
  Claim C5 fails on the code: a popped id without a player object is dropped, and the
  pass returns at once instead of trying again. In the run \<open>dead_in_queue\<close> Zoe's
  \<open>joinGame\<close> handler resumes after her disconnect and queues the dead id \<open>Z\<close>; when Alice
  and Bob settle a round both are re-queued behind it, and the pass that follows drops
  \<open>Z\<close> and leaves the two live players queued and unmatched.
\<close>

theorem dead_id_blocks_pairing:
  "map_option (\<lambda>s. (waitingPlayers s, matches s ''A'', matches s ''B'', players s ''A'' \<noteq> None, players s ''B'' \<noteq> None))
     (run dead_in_queue (initial_state Map.empty)) = Some ([''B'', ''A''], None, None, True, True)"
  by code_simp

text \<open>
  The other branch of the same pass, for a popped player that has an object and no
  socket, does try again: in the run \<open>socketless_in_queue\<close> the queue is [Z, B, A]
  with such a player \<open>Z\<close>, and the pass ends with Alice and Bob matched.
\<close>

lemma socketless_id_is_skipped:
  "map_option (\<lambda>s. (waitingPlayers s, matches s ''A'', matches s ''B''))
     (run socketless_in_queue (initial_state Map.empty)) = Some ([], Some ''B'', Some ''A'')"
  by code_simp

section \<open>The payoff matrix\<close>

lemma checkGameEnd_rewards [simp]: "globalRewards (snd (checkGameEnd e i s)) = globalRewards s"
  by (simp add: checkGameEnd_def Let_def split: option.splits)

lemma settle_rewards [simp]: "globalRewards (settle e a b s) = globalRewards s"
  by (simp add: settle_def notify_round_def Let_def)

lemma requeue_rewards [simp]: "globalRewards (requeue e a b s) = globalRewards s"
  by (simp add: requeue_def requeue_live_def Let_def split_beta)

lemma match_stage_rewards [simp]:
  "globalRewards (drop_invalid a b s) = globalRewards s"
  "globalRewards (match_pair a b s) = globalRewards s"
  "globalRewards (match_notify x y a b s) = globalRewards s"
  "globalRewards (match_undo u v a b s) = globalRewards s"
  by (simp_all add: drop_invalid_def match_pair_def match_notify_def match_undo_def Let_def)



lemma login_finish_rewards [simp]: "globalRewards (login_finish e sock i p n s) = globalRewards s"
  by (simp add: login_finish_def Let_def)

lemma login_rewards [simp]: "globalRewards (login e sock d s) = globalRewards s"
  by (simp add: login_def login_create_def Let_def split: option.splits)

lemma join_checks_rewards [simp]: "globalRewards (join_checks e sock i s) = globalRewards s"
  by (simp add: join_checks_def Let_def)

lemma joinGame_rewards [simp]: "globalRewards (joinGame e sock s) = globalRewards s"
  by (simp add: joinGame_def split: option.splits)

lemma makeChoice_rewards [simp]: "globalRewards (makeChoice e sock c s) = globalRewards s"
  by (simp add: makeChoice_def Let_def split: option.splits)




lemma makeChoice_accepted:
  assumes "choice = ''cooperate'' \<or> choice = ''betray''"
    and "map_of (socketToPlayerId s) sock = Some i" and "i \<noteq> []"
    and "players s i = Some p" and "matches s i = Some opp" and "opp \<noteq> []"
  shows "makeChoice e sock choice s =
           suspend (ChoiceWrite sock i opp)
             (persist e i (upd_player i (record_choice choice (now e) (globalRewards s)) s))"
  using assms by (auto simp add: makeChoice_def findOpponent_def truthy_str_def Let_def)





section \<open>The turns of a login\<close>



lemma login_finish_eq:
  "login_finish e sock i pd isNew s =
     suspend (LoginSet sock pd isNew (reply_of e ()))
       (login_write e i pd
          (s\<lparr>socketToPlayerId := AList.update sock i (socketToPlayerId s),
             players := (players s)(i \<mapsto> pd)\<rparr>))"
  by (simp add: login_finish_def Let_def)






section \<open>Writes and replies\<close>

lemma settle_out_any_env: "out (settle e a b s) = out (settle e' a b s)"
  by (simp add: settle_def notify_round_def Let_def emit_to_out round_msg_def)






lemma persist_other: "j \<noteq> i \<Longrightarrow> redis (persist e i s) j = redis s j"
  by (simp add: persist_def updatePlayerRedisData_def split: option.splits)

lemma stored_score_frame [simp]:
  "stored_score (emit x m s) = stored_score s" "stored_score (emit_to y m s) = stored_score s"
  "stored_score (upd_player i f s) = stored_score s" "stored_score (add_waiting i s) = stored_score s"
  "stored_score (remove_waiting i s) = stored_score s" "stored_score (set_match i j s) = stored_score s"
  "stored_score (delete_match i s) = stored_score s"
  by (simp_all add: stored_score_def fun_eq_iff)











section \<open>No player is matched with itself\<close>

text \<open>
  The queue holds no id twice and matchmaking pairs its first two ids, so the two ids
  of a settlement are always distinct, as the theorems on settlement assume.
\<close>

lemma no_self_cong:
  "waitingPlayers t = waitingPlayers s \<Longrightarrow> matches t = matches s \<Longrightarrow> pending t = pending s \<Longrightarrow>
   no_self t = no_self s"
  by (simp add: no_self_def)

lemma no_self_frame [simp]:
  "no_self (emit a m s) = no_self s" "no_self (emit_to b m s) = no_self s"
  "no_self (persist e i s) = no_self s" "no_self (upd_player i f s) = no_self s"
  "no_self (login_write e i p s) = no_self s" "no_self (s\<lparr>players := x\<rparr>) = no_self s"
  "no_self (s\<lparr>socketToPlayerId := y\<rparr>) = no_self s" "no_self (s\<lparr>globalRewards := g\<rparr>) = no_self s"
  by (rule no_self_cong; simp)+

lemma no_self_suspend [simp]: "no_self (suspend k s) = (no_self s \<and> choice_ok k)"
  by (auto simp add: no_self_def)

lemma no_self_ops:
  "no_self s \<Longrightarrow> no_self (remove_waiting i s)"
  "no_self s \<Longrightarrow> no_self (delete_match i s)"
  "no_self s \<Longrightarrow> no_self (add_waiting i s)"
  "no_self s \<Longrightarrow> i \<noteq> j \<Longrightarrow> no_self (set_match i j s)"
  by (auto simp add: no_self_def set_add_def set_delete_def distinct_removeAll)

lemma no_self_checkGameEnd: "no_self s \<Longrightarrow> no_self (snd (checkGameEnd e i s))"
  by (simp add: checkGameEnd_def Let_def no_self_ops split: option.splits)

lemma no_self_settle [simp]: "no_self (settle e a b s) = no_self s"
  by (rule no_self_cong) (simp_all add: settle_def notify_round_def Let_def)

lemma no_self_requeue: "no_self s \<Longrightarrow> no_self (requeue e a b s)"
  by (simp add: requeue_def requeue_live_def Let_def split_beta no_self_ops no_self_checkGameEnd)

lemma no_self_match_pair:
  assumes "no_self s" and "2 \<le> length (waitingPlayers s)"
  shows "no_self (match_pair (waitingPlayers s ! 0) (waitingPlayers s ! 1) s)"
proof -
  from assms have d: "distinct (waitingPlayers s)"
    and l: "0 < length (waitingPlayers s)" "1 < length (waitingPlayers s)"
    by (auto simp add: no_self_def)
  have "waitingPlayers s ! 0 \<noteq> waitingPlayers s ! 1"
    using nth_eq_iff_index_eq[OF d l] by simp
  then show ?thesis using assms(1) by (simp add: match_pair_def Let_def no_self_ops)
qed

lemma no_self_match_stages:
  "no_self s \<Longrightarrow> no_self (drop_invalid a b s)"
  "no_self s \<Longrightarrow> no_self (match_notify x y a b s)"
  "no_self s \<Longrightarrow> no_self (match_undo u v a b s)"
  by (simp_all add: drop_invalid_def match_notify_def match_undo_def Let_def no_self_ops)

lemma no_self_matchPlayers:
  assumes "matchPlayers s = Some s'" and "no_self s"
  shows "no_self s'"
  using assms
proof (rule matchPlayers_preserves[where P = no_self])
  show "no_self (match_pair (waitingPlayers t ! 0) (waitingPlayers t ! 1) t)"
    if "no_self t" and "2 \<le> length (waitingPlayers t)" for t
    using that by (rule no_self_match_pair)
qed (simp_all add: no_self_match_stages)

lemma no_self_checkMatchCompletion:
  "checkMatchCompletion e a b s = Some s' \<Longrightarrow> no_self s \<Longrightarrow> no_self s'"
  by (auto simp add: checkMatchCompletion_def no_self_requeue dest!: no_self_matchPlayers
        split: option.splits if_splits)

lemma no_self_login_finish [simp]: "no_self (login_finish e sock i p n s) = no_self s"
  by (simp add: login_finish_eq choice_ok_def)

lemma no_self_login [simp]: "no_self (login e sock d s) = no_self s"
  by (simp add: login_def login_create_def Let_def choice_ok_def split: option.splits)

lemma no_self_join_checks [simp]: "no_self (join_checks e sock i s) = no_self s"
  by (simp add: join_checks_def Let_def choice_ok_def)

lemma no_self_joinGame [simp]: "no_self (joinGame e sock s) = no_self s"
  by (simp add: joinGame_def choice_ok_def split: option.splits)

lemma no_self_opponent: "no_self s \<Longrightarrow> truthy_opt (matches s i) \<Longrightarrow> the (matches s i) \<noteq> i"
  by (cases "matches s i") (auto simp add: no_self_def)

lemma no_self_makeChoice: "no_self s \<Longrightarrow> no_self (makeChoice e sock c s)"
  by (auto simp add: makeChoice_def Let_def choice_ok_def findOpponent_def
        dest: no_self_opponent split: option.splits)

lemma no_self_release: "release_opponent i s = Some s' \<Longrightarrow> no_self s \<Longrightarrow> no_self s'"
  by (auto simp add: release_opponent_def Let_def no_self_ops dest!: no_self_matchPlayers
        split: if_splits)

lemma no_self_cleanup: "no_self s \<Longrightarrow> no_self (cleanup e sock i s)"
  by (simp add: cleanup_def Let_def no_self_ops)

lemma no_self_disconnect:
  assumes "disconnect e sock s = Some s'" and "no_self s"
  shows "no_self s'"
  using assms(1)
proof (cases rule: disconnect_cases)
  case 1
  with assms(2) show ?thesis by simp
next
  case (2 i t)
  from no_self_release[OF 2(1) assms(2)] have "no_self t" .
  then show ?thesis unfolding 2(2) by (rule no_self_cleanup)
qed

lemma no_self_resume:
  assumes "resume e k s = Some s'" and "no_self s"
  shows "no_self s'"
proof (cases k)
  case (JoinWrite sock i p)
  with assms(1) have "matchPlayers (add_waiting i (emit sock (GameJoined p (globalRewards s)) s)) = Some s'"
    by (simp add: resume_def)
  from no_self_matchPlayers[OF this] assms(2) show ?thesis by (simp add: no_self_ops)
next
  case (ChoiceWrite sock i opp)
  with assms show ?thesis by (auto simp add: resume_def dest: no_self_checkMatchCompletion)
qed (use assms in \<open>auto simp add: resume_def login_create_def choice_ok_def split: reply.splits bool.splits\<close>)

lemma no_self_take_out:
  "no_self s \<Longrightarrow> k < length (pending s) \<Longrightarrow>
   no_self (s\<lparr>pending := take k (pending s) @ drop (Suc k) (pending s)\<rparr>) \<and> choice_ok (pending s ! k)"
  by (auto simp add: no_self_def dest: in_set_takeD in_set_dropD)

lemma no_self_step: "step e ev s = Some s' \<Longrightarrow> no_self s \<Longrightarrow> no_self s'"
proof (cases ev)
  case (Resume k)
  assume a: "step e ev s = Some s'" "no_self s"
  with Resume have k: "k < length (pending s)" by (simp add: step_def split: if_splits)
  with a Resume have "resume e (pending s ! k) (s\<lparr>pending := take k (pending s) @ drop (Suc k) (pending s)\<rparr>) = Some s'"
    by (simp add: step_def)
  from no_self_resume[OF this] no_self_take_out[OF a(2) k] show ?thesis by blast
qed (auto simp add: step_def no_self_makeChoice dest: no_self_disconnect)

lemma no_self_run: "run evs s = Some s' \<Longrightarrow> no_self s \<Longrightarrow> no_self s'"
proof (induction evs arbitrary: s)
  case Nil
  then show ?case by simp
next
  case (Cons x evs)
  obtain e ev where x: "x = (e, ev)" by (cases x)
  with Cons.prems obtain t where t: "step e ev s = Some t" "run evs t = Some s'"
    by (auto split: option.splits)
  from Cons.IH[OF t(2)] no_self_step[OF t(1) Cons.prems(2)] show ?case by blast
qed

lemma settled_ids_differ:
  assumes "run evs (initial_state r) = Some s" and "k < length (pending s)"
    and "pending s ! k = ChoiceWrite sock i opp"
  shows "opp \<noteq> i"
proof -
  have "no_self (initial_state r)" by (simp add: no_self_def initial_state_def)
  with assms(1) have "no_self s" by (rule no_self_run)
  with assms(2,3) show ?thesis by (auto simp add: no_self_def choice_ok_def dest!: nth_mem)
qed

section \<open>Numbers as text\<close>



















section \<open>Login with and without a stored record\<close>






section \<open>A second submission in an open round\<close>

lemma checkMatchCompletion_open:
  assumes "players s b = Some q" "p_currentChoice q = None"
  shows "checkMatchCompletion e a b s = Some s"
  using assms by (simp add: checkMatchCompletion_def split: option.splits)

lemma submit_round_open:
  assumes "c = ''cooperate'' \<or> c = ''betray''"
    and "map_of (socketToPlayerId s) sock = Some i" and "i \<noteq> []"
    and "players s i = Some p" and "matches s i = Some opp" and "opp \<noteq> []" and "opp \<noteq> i"
    and "players s opp = Some q" and "p_currentChoice q = None"
  shows "run [(e1, MakeChoice sock c), (e2, Resume (length (pending s)))] s =
           Some (persist e1 i (upd_player i (record_choice c (now e1) (globalRewards s)) s))"
proof -
  let ?t = "persist e1 i (upd_player i (record_choice c (now e1) (globalRewards s)) s)"
  have m: "makeChoice e1 sock c s = suspend (ChoiceWrite sock i opp) ?t"
    using assms by (intro makeChoice_accepted) auto
  have "players ?t opp = Some q" using assms by (simp add: upd_player_players)
  then have "checkMatchCompletion e2 i opp ?t = Some ?t"
    using assms(9) by (rule checkMatchCompletion_open)
  moreover have "step e2 (Resume (length (pending s))) (suspend (ChoiceWrite sock i opp) ?t) =
      resume e2 (ChoiceWrite sock i opp) ?t"
    by (rule suspend_then_resume) simp
  ultimately have "step e2 (Resume (length (pending s))) (suspend (ChoiceWrite sock i opp) ?t) = Some ?t"
    by (simp add: resume_def)
  then show ?thesis by (simp add: step_def m)
qed

text \<open>
  Claim C10. A matched player submits a choice while the opponent has none pending, and
  then submits again: both submissions are accepted without any event being sent, the
  pending choice is the second one, and the history has received two entries, both
  bearing the current round index.
\<close>

theorem second_choice_overwrites:
  assumes "c1 = ''cooperate'' \<or> c1 = ''betray''" and "c2 = ''cooperate'' \<or> c2 = ''betray''"
    and "map_of (socketToPlayerId s) sock = Some i" and "i \<noteq> []"
    and "players s i = Some p" and "matches s i = Some opp" and "opp \<noteq> []" and "opp \<noteq> i"
    and "players s opp = Some q" and "p_currentChoice q = None"
  shows "\<exists>s'. run [(e1, MakeChoice sock c1), (e2, Resume (length (pending s))),
                  (e3, MakeChoice sock c2), (e4, Resume (length (pending s)))] s = Some s' \<and>
           out s' = out s \<and> pending s' = pending s \<and>
           players s' i = Some (p\<lparr>p_currentChoice := Some c2,
              p_history := push_history
                \<lparr>e_round = p_currentRound p, e_choice = c2, e_score = p_score p,
                 e_timestamp = now e3, e_rewards = globalRewards s\<rparr>
                (push_history
                  \<lparr>e_round = p_currentRound p, e_choice = c1, e_score = p_score p,
                   e_timestamp = now e1, e_rewards = globalRewards s\<rparr> (p_history p))\<rparr>) \<and>
           (length (p_history p) + 2 \<le> HISTORY_LIMIT \<longrightarrow>
              map_option p_history (players s' i) = Some (p_history p @
                [\<lparr>e_round = p_currentRound p, e_choice = c1, e_score = p_score p,
                  e_timestamp = now e1, e_rewards = globalRewards s\<rparr>,
                 \<lparr>e_round = p_currentRound p, e_choice = c2, e_score = p_score p,
                  e_timestamp = now e3, e_rewards = globalRewards s\<rparr>]))"
proof -
  let ?f1 = "record_choice c1 (now e1) (globalRewards s)"
  let ?t = "persist e1 i (upd_player i ?f1 s)"
  let ?f2 = "record_choice c2 (now e3) (globalRewards s)"
  let ?u = "persist e3 i (upd_player i ?f2 ?t)"
  have r1: "run [(e1, MakeChoice sock c1), (e2, Resume (length (pending s)))] s = Some ?t"
    using assms(1,3-10) by (rule submit_round_open)
  have pt: "players ?t i = Some (?f1 p)" "players ?t opp = Some q"
    using assms by (simp_all add: upd_player_players)
  have "run [(e3, MakeChoice sock c2), (e4, Resume (length (pending ?t)))] ?t =
          Some (persist e3 i (upd_player i (record_choice c2 (now e3) (globalRewards ?t)) ?t))"
    using assms(2) _ assms(4) pt(1) _ assms(7,8) pt(2) assms(10)
    by (rule submit_round_open) (simp_all add: assms)
  then have r2: "run [(e3, MakeChoice sock c2), (e4, Resume (length (pending s)))] ?t = Some ?u"
    by simp
  have "run ([(e1, MakeChoice sock c1), (e2, Resume (length (pending s)))] @
             [(e3, MakeChoice sock c2), (e4, Resume (length (pending s)))]) s = Some ?u"
    unfolding run_append r1 using r2 by simp
  then have r: "run [(e1, MakeChoice sock c1), (e2, Resume (length (pending s))),
                  (e3, MakeChoice sock c2), (e4, Resume (length (pending s)))] s = Some ?u"
    by simp
  have pu: "players ?u i = Some (?f2 (?f1 p))" by (simp add: upd_player_players assms(5))
  have h: "length (p_history p) + 2 \<le> HISTORY_LIMIT \<Longrightarrow>
           p_history (?f2 (?f1 p)) = p_history p @
                [\<lparr>e_round = p_currentRound p, e_choice = c1, e_score = p_score p,
                  e_timestamp = now e1, e_rewards = globalRewards s\<rparr>,
                 \<lparr>e_round = p_currentRound p, e_choice = c2, e_score = p_score p,
                  e_timestamp = now e3, e_rewards = globalRewards s\<rparr>]"
    by (simp add: record_choice_def push_history_def Let_def)
  show ?thesis
    apply (rule exI[of _ ?u])
    using r pu h by (simp add: record_choice_def)
qed

theorem second_choice_overwrites_witness:
  "map_option (\<lambda>s'. (map_option p_currentChoice (players s' ''A''),
                      map_option (\<lambda>p. map e_round (p_history p)) (players s' ''A''), out s'))
     (run [(demo_env, MakeChoice ''s1'' ''cooperate''), (demo_env, Resume 0),
           (demo_env, MakeChoice ''s1'' ''betray''), (demo_env, Resume 0)] (demo_paired None None))
   = Some (Some (Some ''betray''), Some [Num 0, Num 0], [])"
proof -
  from second_choice_overwrites[where ?c1.0 = "''cooperate''" and ?c2.0 = "''betray''"
      and s = "demo_paired None None" and sock = "''s1''" and i = "''A''"
      and p = "demo_player ''A'' ''Alice'' None" and opp = "''B''"
      and q = "demo_player ''B'' ''Bob'' None"
      and ?e1.0 = demo_env and ?e2.0 = demo_env and ?e3.0 = demo_env and ?e4.0 = demo_env]
  obtain s' where "run [(demo_env, MakeChoice ''s1'' ''cooperate''), (demo_env, Resume 0),
           (demo_env, MakeChoice ''s1'' ''betray''), (demo_env, Resume 0)] (demo_paired None None) = Some s'"
    and "out s' = []"
    and "players s' ''A'' = Some ((demo_player ''A'' ''Alice'' None)\<lparr>p_currentChoice := Some ''betray'',
              p_history := push_history
                \<lparr>e_round = Num 0, e_choice = ''betray'', e_score = Num INITIAL_SCORE,
                 e_timestamp = ''t'', e_rewards = initial_rewards\<rparr>
                (push_history
                  \<lparr>e_round = Num 0, e_choice = ''cooperate'', e_score = Num INITIAL_SCORE,
                   e_timestamp = ''t'', e_rewards = initial_rewards\<rparr> [])\<rparr>)"
    by (auto simp add: demo_paired_def demo_player_def fresh_player_def demo_env_def)
  then show ?thesis by (simp add: push_history_def HISTORY_LIMIT_def)
qed

section \<open>The history bound\<close>

lemma hist_ok_cong:
  "players t = players s \<Longrightarrow> redis t = redis s \<Longrightarrow> pending t = pending s \<Longrightarrow> hist_ok t = hist_ok s"
  by (simp add: hist_ok_def)

lemma hist_ok_frame [simp]:
  "hist_ok (emit a m s) = hist_ok s" "hist_ok (emit_to b m s) = hist_ok s"
  "hist_ok (add_waiting i s) = hist_ok s" "hist_ok (remove_waiting i s) = hist_ok s"
  "hist_ok (set_match i j s) = hist_ok s" "hist_ok (delete_match i s) = hist_ok s"
  by (rule hist_ok_cong; simp)+

lemma hist_ok_suspend [simp]: "hist_ok (suspend k s) = (hist_ok s \<and> cont_ok k)"
  by (auto simp add: hist_ok_def)


































end
